theory Spec2Isabelle
  imports Main
begin

section \<open>Provider data (the shapes of \<open>@spotify/web-api-ts-sdk\<close> that \<open>api.js\<close> reads)\<close>

text \<open>
  The objects the provider returns are modelled as records holding the fields that
  \<open>src/server/api.js\<close> reads, typed as the SDK's declarations type them: arrays are lists
  (possibly empty), \<open>PlaybackState.context\<close> is nullable, and a playing item is either a track
  or an episode.
\<close>

record image =
  img_url :: string
  img_width :: int
  img_height :: int

record artist_ref =
  ar_name :: string

record album_ref =
  alb_name :: string
  alb_images :: "image list"

record track =
  trk_id :: string
  trk_name :: string
  trk_artists :: "artist_ref list"
  trk_uri :: string
  trk_album :: album_ref
  trk_track_number :: int
  trk_duration_ms :: int

record show_ref =
  shw_name :: string

record episode =
  ep_id :: string
  ep_name :: string
  ep_show :: show_ref
  ep_uri :: string
  ep_images :: "image list"
  ep_release_date :: string
  ep_duration_ms :: int

datatype track_item = ItemTrack track | ItemEpisode episode

record playlist =
  pl_id :: string
  pl_name :: string
  pl_owner_display_name :: string
  pl_uri :: string
  pl_images :: "image list"
  pl_tracks_total :: int

record artist =
  art_id :: string
  art_name :: string
  art_uri :: string
  art_images :: "image list"

record album =
  al_id :: string
  al_name :: string
  al_release_date :: string
  al_uri :: string
  al_images :: "image list"
  al_total_tracks :: int

record show_obj =
  sh_id :: string
  sh_name :: string
  sh_uri :: string
  sh_images :: "image list"

record playback_context =
  ctx_uri :: string

record playback_state =
  pb_is_playing :: bool
  pb_currently_playing_type :: string
  pb_item :: track_item
  pb_context :: "playback_context option"
  pb_progress_ms :: int

record users_queue =
  uq_currently_playing :: "track_item option"
  uq_queue :: "track_item list"

text \<open>
  A rejected promise or a thrown exception is a value: \<open>UpstreamError\<close> is a rejection of a
  provider call (network or provider failure, with its message), \<open>TypeError\<close> is JavaScript's
  own error on reading a property of \<open>null\<close> or \<open>undefined\<close>, and \<open>BodyError\<close> is what
  the body parser raises on a request body it refuses (JSON that does not parse, a body that
  is too large).
\<close>

datatype error = TypeError | UpstreamError string | BodyError string

text \<open>
  The provider session (\<open>SpotifyApi\<close>): the operations \<open>api.js\<close> calls on it, each giving
  the outcome of the returned promise. \<open>getCurrentlyPlayingTrack\<close> and \<open>getUsersQueue\<close>
  may resolve to nothing (the code tests \<open>!track\<close> and \<open>!queue\<close>). The identifier handed to
  the catalogue lookups comes from destructuring a split URI and may be \<open>undefined\<close>.
\<close>

record sdk =
  player_getCurrentlyPlayingTrack :: "string \<Rightarrow> string \<Rightarrow> error + playback_state option"
  player_getUsersQueue :: "error + users_queue option"
  player_addItemToPlaybackQueue :: "string \<Rightarrow> error + unit"
  playlists_getPlaylist :: "string option \<Rightarrow> error + playlist"
  artists_get :: "string option \<Rightarrow> error + artist"
  albums_get :: "string option \<Rightarrow> error + album"
  shows_get :: "string option \<Rightarrow> error + show_obj"

section \<open>View models (\<open>normalisedData\<close> and \<open>trim\<close>)\<close>

record image_pair =
  full :: "image option"
  low :: "image option"

record normalised =
  n_id :: string
  n_title :: string
  n_subtitle :: string
  n_uri :: string
  n_image :: image_pair

text \<open>\<open>images.at(0)\<close> and \<open>images.at(-1)\<close>: \<open>undefined\<close> on an empty array.\<close>

definition at_first :: "'a list \<Rightarrow> 'a option" where
  "at_first xs = (case xs of [] \<Rightarrow> None | x # _ \<Rightarrow> Some x)"

definition at_last :: "'a list \<Rightarrow> 'a option" where
  "at_last xs = (if xs = [] then None else Some (last xs))"

definition normalisedData :: "string \<Rightarrow> string \<Rightarrow> string \<Rightarrow> string \<Rightarrow> image list \<Rightarrow> normalised" where
  "normalisedData i nm subtitle u images =
     \<lparr>n_id = i, n_title = nm, n_subtitle = subtitle, n_uri = u,
      n_image = \<lparr>full = at_first images, low = at_last images\<rparr>\<rparr>"

record api_track =
  t_id :: string
  t_normalised :: normalised
  t_title :: string
  t_album :: string
  t_artist :: string
  t_artists :: "string list"
  t_number :: int
  t_uri :: string
  t_image :: image_pair

record api_playlist =
  p_id :: string
  p_normalised :: normalised
  p_title :: string
  p_owner :: string
  p_total :: int
  p_uri :: string
  p_image :: image_pair

record api_artist =
  a_id :: string
  a_normalised :: normalised
  a_title :: string
  a_uri :: string
  a_image :: image_pair

record api_album =
  b_normalised :: normalised
  b_id :: string
  b_title :: string
  b_release :: string
  b_uri :: string
  b_total :: int
  b_image :: image_pair

record api_episode =
  e_id :: string
  e_normalised :: normalised
  e_title :: string
  e_show :: string
  e_release :: string
  e_uri :: string
  e_image :: image_pair

record api_show =
  s_id :: string
  s_normalised :: normalised
  s_title :: string
  s_uri :: string
  s_image :: image_pair

text \<open>
  JavaScript's \<open>str.split(sep)\<close> for a one-character separator: the pieces between the
  separators, always at least one piece.
\<close>

fun split_on :: "char \<Rightarrow> string \<Rightarrow> string list" where
  "split_on c [] = [[]]"
| "split_on c (x # xs) =
     (if x = c then [] # split_on c xs
      else (case split_on c xs of [] \<Rightarrow> [[x]] | w # ws \<Rightarrow> (x # w) # ws))"

text \<open>
  \<open>trim.track\<close> reads \<open>track.artists[0].name\<close>: on a track without artists that is a
  property read on \<open>undefined\<close>, a \<open>TypeError\<close>.
\<close>

definition trim_track :: "track \<Rightarrow> error + api_track" where
  "trim_track t =
     (case trk_artists t of
        [] \<Rightarrow> Inl TypeError
      | a0 # _ \<Rightarrow>
          Inr \<lparr>t_id = trk_id t,
               t_normalised = normalisedData (trk_id t) (trk_name t) (ar_name a0) (trk_uri t)
                                (alb_images (trk_album t)),
               t_title = trk_name t,
               t_album = alb_name (trk_album t),
               t_artist = ar_name a0,
               t_artists = map ar_name (trk_artists t),
               t_number = trk_track_number t,
               t_uri = trk_uri t,
               t_image = \<lparr>full = at_first (alb_images (trk_album t)),
                          low = at_last (alb_images (trk_album t))\<rparr>\<rparr>)"

definition trim_playlist :: "playlist \<Rightarrow> api_playlist" where
  "trim_playlist p =
     \<lparr>p_id = pl_id p,
      p_normalised = normalisedData (pl_id p) (pl_name p) (pl_owner_display_name p) (pl_uri p)
                       (pl_images p),
      p_title = pl_name p,
      p_owner = pl_owner_display_name p,
      p_total = pl_tracks_total p,
      p_uri = pl_uri p,
      p_image = \<lparr>full = at_first (pl_images p), low = at_last (pl_images p)\<rparr>\<rparr>"

definition trim_artist :: "artist \<Rightarrow> api_artist" where
  "trim_artist a =
     \<lparr>a_id = art_id a,
      a_normalised = normalisedData (art_id a) (art_name a) [] (art_uri a) (art_images a),
      a_title = art_name a,
      a_uri = art_uri a,
      a_image = \<lparr>full = at_first (art_images a), low = at_last (art_images a)\<rparr>\<rparr>"

definition trim_album :: "album \<Rightarrow> api_album" where
  "trim_album a =
     \<lparr>b_normalised = normalisedData (al_id a) (al_name a)
                       (hd (split_on CHR ''-'' (al_release_date a))) (al_uri a) (al_images a),
      b_id = al_id a,
      b_title = al_name a,
      b_release = al_release_date a,
      b_uri = al_uri a,
      b_total = al_total_tracks a,
      b_image = \<lparr>full = at_first (al_images a), low = at_last (al_images a)\<rparr>\<rparr>"

definition trim_episode :: "episode \<Rightarrow> api_episode" where
  "trim_episode e =
     \<lparr>e_id = ep_id e,
      e_normalised = normalisedData (ep_id e) (ep_name e) (shw_name (ep_show e)) (ep_uri e)
                       (ep_images e),
      e_title = ep_name e,
      e_show = shw_name (ep_show e),
      e_release = ep_release_date e,
      e_uri = ep_uri e,
      e_image = \<lparr>full = at_first (ep_images e), low = at_last (ep_images e)\<rparr>\<rparr>"

definition trim_show :: "show_obj \<Rightarrow> api_show" where
  "trim_show s =
     \<lparr>s_id = sh_id s,
      s_normalised = normalisedData (sh_id s) (sh_name s) [] (sh_uri s) (sh_images s),
      s_title = sh_name s,
      s_uri = sh_uri s,
      s_image = \<lparr>full = at_first (sh_images s), low = at_last (sh_images s)\<rparr>\<rparr>"

text \<open>
  \<open>getContext\<close> returns \<open>{}\<close> or a trimmed object tagged with its \<open>type\<close>; the tag is the
  constructor.
\<close>

datatype api_context =
    CtxEmpty
  | CtxPlaylist api_playlist
  | CtxArtist api_artist
  | CtxAlbum api_album
  | CtxShow api_show

datatype api_item = TrimmedTrack api_track | TrimmedEpisode api_episode

record player_info =
  current :: int
  duration :: int

record info_body =
  isPlaying :: bool
  info_track :: api_item
  info_context :: api_context
  info_player :: player_info

datatype info = NoTrack | Info info_body

section \<open>Effects\<close>

text \<open>
  Every function below returns, beside its outcome, the list of effects it performed, in
  order: calls on the provider session, uses of the cache (by key), messages emitted to the
  connected clients, console lines (\<open>console.log\<close>, \<open>console.error\<close>) and errors reported
  on the event bus (\<open>events.error\<close>).
\<close>

datatype provider_call =
    GetCurrentlyPlayingTrack string string
  | GetUsersQueue
  | AddItemToPlaybackQueue string
  | GetPlaylist "string option"
  | ArtistsGet "string option"
  | AlbumsGet "string option"
  | ShowsGet "string option"

datatype event =
    Log string
  | LogError error
  | ErrorEvent string error
  | Provider provider_call
  | MemoUse string
  | Emit string info

section \<open>The cache (\<open>memo\<close>)\<close>

text \<open>
  Modelled from the spec: \<open>memo.use\<close> of \<open>src/server/memo.js\<close>, which \<open>api.js\<close> imports and
  which is not among the sources. The spec (sections 3 and 4.1) gives an entry a value and an
  absolute expiry time; a lookup treats an entry whose expiry has passed as absent; a resolve
  returns a non-expired value without invoking the fetcher, and otherwise runs the fetcher,
  storing its value with \<open>expiresAt = now + TTL\<close> on success and storing nothing on failure.
  The time-to-live and the clock are parameters. The cache modelled here holds the values of
  the one caller modelled, \<open>SpotifyInteract.context.get\<close>.
\<close>

record 'v cache_entry =
  ce_value :: 'v
  ce_expiresAt :: nat

type_synonym 'v cache = "string \<Rightarrow> 'v cache_entry option"

text \<open>
  Modelled from the spec: the lookup of \<open>memo.js\<close> (not among the sources). An entry whose
  expiry time has been reached is treated as absent (lazy expiry).
\<close>

definition cache_lookup :: "'v cache \<Rightarrow> nat \<Rightarrow> string \<Rightarrow> 'v option" where
  "cache_lookup c now k =
     (case c k of
        None \<Rightarrow> None
      | Some e \<Rightarrow> (if now < ce_expiresAt e then Some (ce_value e) else None))"

text \<open>
  Modelled from the spec: storing a resolved value in \<open>memo.js\<close> (not among the sources),
  with \<open>expiresAt = now + TTL\<close>.
\<close>

definition cache_store :: "nat \<Rightarrow> nat \<Rightarrow> string \<Rightarrow> 'v \<Rightarrow> 'v cache \<Rightarrow> 'v cache" where
  "cache_store ttl now k v c = c(k \<mapsto> \<lparr>ce_value = v, ce_expiresAt = now + ttl\<rparr>)"

text \<open>
  Modelled from the spec: one resolve, run to completion with nothing else in between (the
  view of a single \<open>await memo.use(key, fetcher)\<close>). The fetcher is a thunk giving its
  outcome and its effects; it is run only on a miss.
\<close>

definition memo_use ::
  "nat \<Rightarrow> nat \<Rightarrow> 'v cache \<Rightarrow> string \<Rightarrow> (unit \<Rightarrow> (error + 'v) \<times> event list)
     \<Rightarrow> (error + 'v) \<times> 'v cache \<times> event list" where
  "memo_use ttl now c k fetcher =
     (case cache_lookup c now k of
        Some v \<Rightarrow> (Inr v, c, [])
      | None \<Rightarrow>
          (case fetcher () of
             (Inl e, tr) \<Rightarrow> (Inl e, c, tr)
           | (Inr v, tr) \<Rightarrow> (Inr v, cache_store ttl now k v c, tr)))"

section \<open>\<open>SpotifyInteract\<close>\<close>

definition DEFAULT_market :: string where
  "DEFAULT_market = ''GB''"

definition nth_opt :: "'a list \<Rightarrow> nat \<Rightarrow> 'a option" where
  "nth_opt xs i = (if i < length xs then Some (xs ! i) else None)"

text \<open>\<open>const [_, type, id] = uri.split(':')\<close>: a missing piece is \<open>undefined\<close>.\<close>

definition deconstructUri :: "string \<Rightarrow> string option \<times> string option" where
  "deconstructUri uri =
     (let parts = split_on CHR '':'' uri in (nth_opt parts 1, nth_opt parts 2))"

text \<open>The body of the \<open>try\<close> in \<open>getContext\<close>: the \<open>switch\<close> on the URI's type.\<close>

definition getContext_try :: "sdk \<Rightarrow> string \<Rightarrow> (error + api_context) \<times> event list" where
  "getContext_try s uri =
     (case deconstructUri uri of (ty, i) \<Rightarrow>
        if ty = Some ''playlist'' then
          (case playlists_getPlaylist s i of
             Inl e \<Rightarrow> (Inl e, [Provider (GetPlaylist i)])
           | Inr p \<Rightarrow> (Inr (CtxPlaylist (trim_playlist p)), [Provider (GetPlaylist i)]))
        else if ty = Some ''artist'' then
          (case artists_get s i of
             Inl e \<Rightarrow> (Inl e, [Provider (ArtistsGet i)])
           | Inr a \<Rightarrow> (Inr (CtxArtist (trim_artist a)), [Provider (ArtistsGet i)]))
        else if ty = Some ''album'' then
          (case albums_get s i of
             Inl e \<Rightarrow> (Inl e, [Provider (AlbumsGet i)])
           | Inr a \<Rightarrow> (Inr (CtxAlbum (trim_album a)), [Provider (AlbumsGet i)]))
        else if ty = Some ''show'' then
          (case shows_get s i of
             Inl e \<Rightarrow> (Inl e, [Provider (ShowsGet i)])
           | Inr sh \<Rightarrow> (Inr (CtxShow (trim_show sh)), [Provider (ShowsGet i)]))
        else (Inr CtxEmpty, []))"

text \<open>\<open>getContext\<close>: whatever the \<open>try\<close> throws is caught and \<open>{}\<close> is returned.\<close>

definition getContext :: "sdk \<Rightarrow> string \<Rightarrow> (error + api_context) \<times> event list" where
  "getContext s uri =
     (case getContext_try s uri of
        (Inl e, tr) \<Rightarrow> (Inr CtxEmpty, tr)
      | (Inr cx, tr) \<Rightarrow> (Inr cx, tr))"

text \<open>
  \<open>SpotifyInteract.context.get\<close>: \<open>memo.use(uri, () => getContext(sdk, uri))\<close>. The key
  it hands to the cache is recorded as an effect.
\<close>

definition context_get ::
  "nat \<Rightarrow> nat \<Rightarrow> api_context cache \<Rightarrow> sdk \<Rightarrow> string
     \<Rightarrow> (error + api_context) \<times> api_context cache \<times> event list" where
  "context_get ttl now c s uri =
     (case memo_use ttl now c uri (\<lambda>_. getContext s uri) of
        (r, c', tr) \<Rightarrow> (r, c', MemoUse uri # tr))"

text \<open>
  \<open>trim.episode\<close> and \<open>trim.track\<close> applied to \<open>track.item\<close>. Handed an object of the other
  kind, \<open>trim.episode\<close> reads \<open>episode.show.name\<close> and \<open>trim.track\<close> reads
  \<open>track.artists[0]\<close> on \<open>undefined\<close>: a \<open>TypeError\<close>.
\<close>

definition trim_episode_item :: "track_item \<Rightarrow> error + api_item" where
  "trim_episode_item it =
     (case it of
        ItemEpisode e \<Rightarrow> Inr (TrimmedEpisode (trim_episode e))
      | ItemTrack _ \<Rightarrow> Inl TypeError)"

definition trim_track_item :: "track_item \<Rightarrow> error + api_item" where
  "trim_track_item it =
     (case it of
        ItemTrack t \<Rightarrow> map_sum id TrimmedTrack (trim_track t)
      | ItemEpisode _ \<Rightarrow> Inl TypeError)"

definition item_duration_ms :: "track_item \<Rightarrow> int" where
  "item_duration_ms it =
     (case it of ItemTrack t \<Rightarrow> trk_duration_ms t | ItemEpisode e \<Rightarrow> ep_duration_ms e)"

definition item_uri :: "track_item \<Rightarrow> string" where
  "item_uri it = (case it of ItemTrack t \<Rightarrow> trk_uri t | ItemEpisode e \<Rightarrow> ep_uri e)"

text \<open>
  \<open>SpotifyInteract.info.get\<close>. The playback snapshot is asked of the provider directly;
  \<open>track.context.uri\<close> on a snapshot whose context is \<open>null\<close> is a \<open>TypeError\<close>; the context
  is resolved through \<open>context.get\<close>; the item is trimmed after that.
\<close>

definition info_get ::
  "nat \<Rightarrow> nat \<Rightarrow> api_context cache \<Rightarrow> sdk \<Rightarrow> string
     \<Rightarrow> (error + info) \<times> api_context cache \<times> event list" where
  "info_get ttl now c s market =
     (let ev0 = [Provider (GetCurrentlyPlayingTrack market ''episode'')] in
      case player_getCurrentlyPlayingTrack s market ''episode'' of
        Inl e \<Rightarrow> (Inl e, c, ev0)
      | Inr None \<Rightarrow> (Inr NoTrack, c, ev0)
      | Inr (Some track) \<Rightarrow>
          (case pb_context track of
             None \<Rightarrow> (Inl TypeError, c, ev0)
           | Some cx \<Rightarrow>
               (case context_get ttl now c s (ctx_uri cx) of
                  (Inl e, c', tr) \<Rightarrow> (Inl e, c', ev0 @ tr)
                | (Inr ctxt, c', tr) \<Rightarrow>
                    (case (if pb_currently_playing_type track = ''episode''
                           then trim_episode_item (pb_item track)
                           else trim_track_item (pb_item track)) of
                       Inl e \<Rightarrow> (Inl e, c', ev0 @ tr)
                     | Inr t \<Rightarrow>
                         (Inr (Info \<lparr>isPlaying = pb_is_playing track,
                                     info_track = t,
                                     info_context = ctxt,
                                     info_player =
                                       \<lparr>current = pb_progress_ms track,
                                        duration = item_duration_ms (pb_item track)\<rparr>\<rparr>),
                          c', ev0 @ tr)))))"

record add_result =
  success :: bool

text \<open>
  \<open>SpotifyInteract.queue.add\<close>. Destructuring \<open>{ queue }\<close> from a queue that resolved to
  nothing is a \<open>TypeError\<close>.
\<close>

definition queue_add :: "sdk \<Rightarrow> string \<Rightarrow> (error + add_result) \<times> event list" where
  "queue_add s uri =
     (case player_getUsersQueue s of
        Inl e \<Rightarrow> (Inl e, [Provider GetUsersQueue])
      | Inr None \<Rightarrow> (Inl TypeError, [Provider GetUsersQueue])
      | Inr (Some q) \<Rightarrow>
          (if list_ex (\<lambda>item. item_uri item = uri) (uq_queue q)
           then (Inr \<lparr>success = False\<rparr>, [Provider GetUsersQueue])
           else
             (case player_addItemToPlaybackQueue s uri of
                Inl e \<Rightarrow>
                  (Inl e, [Provider GetUsersQueue, Provider (AddItemToPlaybackQueue uri)])
              | Inr _ \<Rightarrow>
                  (Inr \<lparr>success = True\<rparr>,
                   [Provider GetUsersQueue, Provider (AddItemToPlaybackQueue uri)]))))"

section \<open>The centralised polling tick\<close>

text \<open>
  The callback \<open>run\<close> hands to \<open>asyncInterval\<close>, given the session slot \<open>sdk.current\<close> and
  \<open>io.engine.clientsCount\<close> as they are when the tick runs. \<open>info.get\<close> is called without a
  market, so with its default.
\<close>

definition poll_tick ::
  "nat \<Rightarrow> nat \<Rightarrow> api_context cache \<Rightarrow> sdk option \<Rightarrow> nat
     \<Rightarrow> (error + unit) \<times> api_context cache \<times> event list" where
  "poll_tick ttl now c sdk_current clientsCount =
     (let ev0 = [Log ''Running centralised polling''] in
      case sdk_current of
        None \<Rightarrow> (Inr (), c, ev0)
      | Some s \<Rightarrow>
          (if clientsCount > 0 then
             (case info_get ttl now c s DEFAULT_market of
                (Inl e, c', tr) \<Rightarrow> (Inl e, c', ev0 @ tr)
              | (Inr i, c', tr) \<Rightarrow>
                  (Inr (), c', ev0 @ tr @ [Emit ''info'' i, Log ''Ran centralised polling'']))
           else (Inr (), c, ev0)))"

section \<open>The polling loop (\<open>asyncInterval\<close>)\<close>

text \<open>
  One wake-up of the timer, with what the tick finds when it runs: the clock, the session
  slot and the number of connected clients.
\<close>

record wake =
  w_now :: nat
  w_sdk :: "sdk option"
  w_clients :: nat

text \<open>
  Modelled from the spec: \<open>asyncInterval\<close> of \<open>src/server/utils.js\<close>, which \<open>api.js\<close>
  imports and which is not among the sources. The spec (sections 4.2 and 7) has the action
  run once per wake-up, one run after the other, and a failure of the action caught and
  logged at the tick boundary, after which the loop waits for the next wake-up. The loop is
  run here over the wake-ups of any finite stretch of the process's life; it returns the
  effects of the stretch and the state it leaves.
\<close>

fun asyncInterval ::
  "('w \<Rightarrow> 's \<Rightarrow> (error + unit) \<times> 's \<times> event list) \<Rightarrow> 's \<Rightarrow> 'w list \<Rightarrow> event list \<times> 's" where
  "asyncInterval action st [] = ([], st)"
| "asyncInterval action st (w # ws) =
     (case action w st of
        (Inl e, st', tr) \<Rightarrow>
          (case asyncInterval action st' ws of (tr', st'') \<Rightarrow> (tr @ [LogError e] @ tr', st''))
      | (Inr _, st', tr) \<Rightarrow>
          (case asyncInterval action st' ws of (tr', st'') \<Rightarrow> (tr @ tr', st'')))"

text \<open>The loop \<open>run\<close> starts: \<open>asyncInterval\<close> over the polling tick.\<close>

definition polling_loop ::
  "nat \<Rightarrow> api_context cache \<Rightarrow> wake list \<Rightarrow> event list \<times> api_context cache" where
  "polling_loop ttl =
     asyncInterval (\<lambda>w c. poll_tick ttl (w_now w) c (w_sdk w) (w_clients w))"

section \<open>Options (\<open>DEFAULT_OPTS\<close> and \<open>run\<close>)\<close>

text \<open>
  An options object is a finite map from property names to JavaScript values; reading a
  property that is not there gives \<open>undefined\<close>, and \<open>{...DEFAULT_OPTS, ...opts}\<close> lets every
  property \<open>opts\<close> has (whatever its value) override the default.
\<close>

datatype jsval = JUndefined | JNull | JBool bool | JNum int | JStr string

type_synonym options = "string \<Rightarrow> jsval option"

definition truthy :: "jsval \<Rightarrow> bool" where
  "truthy v =
     (case v of
        JUndefined \<Rightarrow> False
      | JNull \<Rightarrow> False
      | JBool b \<Rightarrow> b
      | JNum n \<Rightarrow> n \<noteq> 0
      | JStr s \<Rightarrow> s \<noteq> [])"

definition get_opt :: "options \<Rightarrow> string \<Rightarrow> jsval" where
  "get_opt obj k = (case obj k of None \<Rightarrow> JUndefined | Some v \<Rightarrow> v)"

definition DEFAULT_OPTS :: options where
  "DEFAULT_OPTS =
     [''market'' \<mapsto> JStr DEFAULT_market,
      ''searchQueryLimit'' \<mapsto> JNum 10,
      ''centralisedPolling'' \<mapsto> JBool True,
      ''centralisedPollingTimer'' \<mapsto> JNum 5000]"

definition merged_options :: "options \<Rightarrow> options" where
  "merged_options opts = DEFAULT_OPTS ++ opts"

text \<open>
  What \<open>run(io, sdk, opts)\<close> does about polling: \<open>None\<close> when it starts no loop, \<open>Some t\<close>
  when it calls \<open>asyncInterval\<close> with the tick and the interval \<open>t\<close>.
\<close>

definition run_polling :: "options \<Rightarrow> jsval option" where
  "run_polling opts =
     (let options = merged_options opts in
      if truthy (get_opt options ''centralisedPolling'')
      then Some (get_opt options ''centralisedPollingTimer'')
      else None)"

section \<open>The HTTP chain of \<open>index.js\<close>\<close>

text \<open>
  A request as the chain sees it: its method, its path as segments (relative to the mount
  that is handling it), the error the body parser raises on its body, if any, and the
  \<open>req.sdk\<close> property, \<open>undefined\<close> until the attaching middleware sets it. A handler
  either answers or hands the request on. The handlers of this repository that are not among
  the sources (the plugins, the \<open>/spotify\<close> routes, what is mounted after \<open>/api\<close>) and the
  bodies of the other \<open>/api\<close> routes answer with a body of an arbitrary type \<open>'b\<close>;
  \<open>JsonError\<close> is \<open>{error: true, message}\<close>, \<open>JsonHealth\<close> is
  \<open>{success, authenticated}\<close>, and \<open>NoContent\<close> is the empty 204 response.
\<close>

record request =
  rq_method :: string
  rq_path :: "string list"
  rq_body_error :: "error option"
  rq_sdk :: "sdk option"

datatype 'b response = JsonError string | JsonHealth bool bool | JsonBody 'b | NoContent

type_synonym 'b outcome = "'b response option \<times> event list"

type_synonym 'b handler = "request \<Rightarrow> 'b outcome"

type_synonym 'b middleware = "request \<Rightarrow> 'b handler \<Rightarrow> 'b outcome"

text \<open>
  The error-handling middleware \<open>index.js\<close> installs last: it reports the error on the
  event bus and answers \<open>{error: true, message: ERROR.GENERAL}\<close>. The text of
  \<open>ERROR.GENERAL\<close> is declared in \<open>constants.js\<close>, which is not among the sources: it is
  the parameter \<open>general\<close>.
\<close>

definition error_middleware :: "string \<Rightarrow> error \<Rightarrow> 'b outcome" where
  "error_middleware general err = (Some (JsonError general), [ErrorEvent general err])"

text \<open>
  \<open>app.use(express.json())\<close>, the first middleware installed. The parser is the framework's;
  what matters here is who answers: a body it refuses is an error handed to \<open>next\<close>, which
  skips every handler up to the error-handling middleware.
\<close>

definition express_json :: "string \<Rightarrow> 'b middleware" where
  "express_json general req nxt =
     (case rq_body_error req of
        None \<Rightarrow> nxt req
      | Some e \<Rightarrow> error_middleware general e)"

text \<open>
  \<open>app.use(cors())\<close>, installed second, with the library's defaults: an \<open>OPTIONS\<close> request
  is a preflight, answered by the library itself with an empty 204; every other request
  goes on.
\<close>

definition cors :: "'b middleware" where
  "cors req nxt = (if rq_method req = ''OPTIONS'' then (Some NoContent, []) else nxt req)"

text \<open>
  A sub-application or handler of this repository that is not among the sources, as a
  middleware: it answers with its body, or hands the request on.
\<close>

definition external :: "(request \<Rightarrow> 'b option \<times> event list) \<Rightarrow> 'b middleware" where
  "external h req nxt =
     (case h req of
        (None, tr) \<Rightarrow> (case nxt req of (resp, tr') \<Rightarrow> (resp, tr @ tr'))
      | (Some b, tr) \<Rightarrow> (Some (JsonBody b), tr))"

text \<open>The middleware that attaches the session: \<open>req.sdk = sdk.current; next()\<close>.\<close>

definition attach :: "sdk option \<Rightarrow> 'b middleware" where
  "attach sdk_current req nxt = nxt (req\<lparr>rq_sdk := sdk_current\<rparr>)"

text \<open>
  \<open>sdkProtect\<close>. The text of \<open>ERROR.UNAUTHENTICATED\<close> is declared in \<open>constants.js\<close>, which
  is not among the sources: it is the parameter \<open>unauth\<close>.
\<close>

definition sdkProtect :: "string \<Rightarrow> 'b middleware" where
  "sdkProtect unauth req nxt =
     (if rq_sdk req = None then (Some (JsonError unauth), []) else nxt req)"

text \<open>
  The framework matches mount paths and route paths without regard to the case of ASCII
  letters (its default, which neither \<open>express()\<close> nor \<open>Router()\<close> is told to change here).
\<close>

definition lower_char :: "char \<Rightarrow> char" where
  "lower_char ch =
     (case map_of (zip ''ABCDEFGHIJKLMNOPQRSTUVWXYZ'' ''abcdefghijklmnopqrstuvwxyz'') ch of
        None \<Rightarrow> ch
      | Some l \<Rightarrow> l)"

definition to_lower :: "string \<Rightarrow> string" where
  "to_lower str = map lower_char str"

text \<open>
  \<open>app.use(prefix, ...)\<close>, for a prefix of one segment written in lower case: the mounted
  middleware sees the requests whose path starts with the prefix, with the prefix taken
  off; every other request goes on.
\<close>

definition mount :: "string \<Rightarrow> 'b middleware \<Rightarrow> 'b middleware" where
  "mount prefix m req nxt =
     (case rq_path req of
        [] \<Rightarrow> nxt req
      | seg # rest \<Rightarrow>
          (if to_lower seg = prefix
           then m (req\<lparr>rq_path := rest\<rparr>) (\<lambda>r. nxt (r\<lparr>rq_path := rq_path req\<rparr>))
           else nxt req))"

text \<open>
  The routes of the router that \<open>run\<close> builds, in the order it registers them. A route
  parameter (\<open>:id\<close>) keeps the segment as it was written.
\<close>

datatype route =
    RArtist string | RAlbum string | RSearch | RAdd | RInfo | RQueue
  | RSkipForward | RSkipBackward | RPlay | RPause | RHealth

definition match_route :: "string \<Rightarrow> string list \<Rightarrow> route option" where
  "match_route m p =
     (if m \<noteq> ''GET'' \<and> m \<noteq> ''HEAD'' then None
      else
        (case p of
           [a, i] \<Rightarrow>
             (if to_lower a = ''artist'' \<and> i \<noteq> [] then Some (RArtist i)
              else if to_lower a = ''album'' \<and> i \<noteq> [] then Some (RAlbum i)
              else None)
         | [a] \<Rightarrow>
             (if to_lower a = ''search'' then Some RSearch
              else if to_lower a = ''add'' then Some RAdd
              else if to_lower a = ''info'' then Some RInfo
              else if to_lower a = ''queue'' then Some RQueue
              else if to_lower a = ''skipforward'' then Some RSkipForward
              else if to_lower a = ''skipbackward'' then Some RSkipBackward
              else if to_lower a = ''play'' then Some RPlay
              else if to_lower a = ''pause'' then Some RPause
              else if to_lower a = ''health'' then Some RHealth
              else None)
         | _ \<Rightarrow> None))"

text \<open>The \<open>/health\<close> handler: \<open>res.json({ success: true, authenticated: !!req.sdk })\<close>.\<close>

definition health :: "'b handler" where
  "health req = (Some (JsonHealth True (rq_sdk req \<noteq> None)), [])"

text \<open>
  \<open>apiWrapper\<close>: the handler's body answers with \<open>res.json\<close>, or throws; what it throws is
  written to the console and handed to \<open>next\<close>, which takes it to the error-handling
  middleware.
\<close>

definition apiWrapper ::
  "string \<Rightarrow> (request \<Rightarrow> (error + 'b) \<times> event list) \<Rightarrow> 'b handler" where
  "apiWrapper general handler req =
     (case handler req of
        (Inr b, tr) \<Rightarrow> (Some (JsonBody b), tr)
      | (Inl e, tr) \<Rightarrow>
          (case error_middleware general e of (resp, tr') \<Rightarrow> (resp, tr @ [LogError e] @ tr')))"

text \<open>
  The router: the first route that matches answers. The bodies of the handlers of the routes
  other than \<open>/health\<close>, each wrapped in \<open>apiWrapper\<close>, are the parameter \<open>handlers\<close>.
\<close>

definition ApiRoutes ::
  "string \<Rightarrow> (route \<Rightarrow> request \<Rightarrow> (error + 'b) \<times> event list) \<Rightarrow> 'b middleware" where
  "ApiRoutes general handlers req nxt =
     (case match_route (rq_method req) (rq_path req) of
        None \<Rightarrow> nxt req
      | Some RHealth \<Rightarrow> health req
      | Some r \<Rightarrow> apiWrapper general (handlers r) req)"

text \<open>\<open>app.use('/api', sdkProtect, ApiRoutes(io, sdk, OPTIONS.api ?? {}))\<close>.\<close>

definition api_mount ::
  "string \<Rightarrow> string \<Rightarrow> (route \<Rightarrow> request \<Rightarrow> (error + 'b) \<times> event list) \<Rightarrow> 'b middleware" where
  "api_mount unauth general handlers =
     mount ''api'' (\<lambda>r nxt. sdkProtect unauth r (\<lambda>r'. ApiRoutes general handlers r' nxt))"

text \<open>
  What \<open>index.js\<close> installs from the attaching middleware on, in its order: the attaching
  middleware, the \<open>/spotify\<close> mount, the \<open>/api\<close> mount, then whatever is installed after
  them; a request nothing answers gets no response here.
\<close>

definition own_chain ::
  "string \<Rightarrow> string \<Rightarrow> (request \<Rightarrow> 'b option \<times> event list)
     \<Rightarrow> (route \<Rightarrow> request \<Rightarrow> (error + 'b) \<times> event list)
     \<Rightarrow> (request \<Rightarrow> 'b option \<times> event list)
     \<Rightarrow> sdk option \<Rightarrow> 'b handler" where
  "own_chain unauth general spotify handlers later sdk_current req0 =
     attach sdk_current req0 (\<lambda>req1.
       mount ''spotify'' (external spotify) req1 (\<lambda>req2.
         api_mount unauth general handlers req2 (\<lambda>req3.
           external later req3 (\<lambda>_. (None, [])))))"

text \<open>
  The whole application, in the order \<open>index.js\<close> installs it: \<open>express.json()\<close>,
  \<open>cors()\<close>, what the plugins install when their handlers are run (the parameter
  \<open>plugins\<close>), and then the chain above.
\<close>

definition app_chain ::
  "string \<Rightarrow> string \<Rightarrow> (request \<Rightarrow> 'b option \<times> event list)
     \<Rightarrow> (request \<Rightarrow> 'b option \<times> event list)
     \<Rightarrow> (route \<Rightarrow> request \<Rightarrow> (error + 'b) \<times> event list)
     \<Rightarrow> (request \<Rightarrow> 'b option \<times> event list)
     \<Rightarrow> sdk option \<Rightarrow> 'b handler" where
  "app_chain unauth general plugins spotify handlers later sdk_current req0 =
     express_json general req0 (\<lambda>r1.
       cors r1 (\<lambda>r2.
         external plugins r2 (\<lambda>r3.
           own_chain unauth general spotify handlers later sdk_current r3)))"

section \<open>The cache under concurrent callers\<close>

text \<open>
  Modelled from the spec: the in-flight side of \<open>memo.use\<close> (\<open>src/server/memo.js\<close> is not
  among the sources). Section 4.1 of the spec gives a resolve three cases: a non-expired
  value is returned at once; else a resolution in flight for the key is joined; else the
  fetcher is started and recorded as in flight. When the fetcher settles, every caller
  attached gets its outcome, the in-flight marker is cleared, and a value (never a failure)
  is stored with its expiry. The state keeps, beside the stored entries, the resolutions in
  flight (a key and the callers attached, in the order they arrived), the keys the fetcher
  was started for (one entry per start), and what each caller has been given (the caller, the
  key it asked for, the outcome). An event is a caller's resolve or the settling of the fetch
  of a key, each with the time it happens at.
\<close>

record 'v memo_state =
  ms_cache :: "'v cache"
  ms_pending :: "(string \<times> nat list) list"
  ms_invoked :: "string list"
  ms_observed :: "(nat \<times> string \<times> (error + 'v)) list"

datatype 'v memo_event =
    Resolve nat nat string
  | Settle nat string "error + 'v"

text \<open>
  Modelled from the spec: joining the resolution in flight for a key, and clearing the
  in-flight marker of a key, in \<open>memo.js\<close> (not among the sources).
\<close>

definition join_pending :: "string \<Rightarrow> nat \<Rightarrow> (string \<times> nat list) list \<Rightarrow> (string \<times> nat list) list" where
  "join_pending k caller ps =
     map (\<lambda>(k', ws). if k' = k then (k', ws @ [caller]) else (k', ws)) ps"

definition clear_pending :: "string \<Rightarrow> (string \<times> nat list) list \<Rightarrow> (string \<times> nat list) list" where
  "clear_pending k ps = filter (\<lambda>(k', _). k' \<noteq> k) ps"

text \<open>
  Modelled from the spec: a caller's \<open>memo.use(k, fetcher)\<close> up to its first suspension
  (\<open>memo.js\<close> is not among the sources): answered from a non-expired value, or attached to
  the resolution in flight, or starting the fetcher.
\<close>

definition memo_resolve :: "nat \<Rightarrow> nat \<Rightarrow> string \<Rightarrow> 'v memo_state \<Rightarrow> 'v memo_state" where
  "memo_resolve now caller k s =
     (case cache_lookup (ms_cache s) now k of
        Some v \<Rightarrow> s\<lparr>ms_observed := ms_observed s @ [(caller, k, Inr v)]\<rparr>
      | None \<Rightarrow>
          (if k \<in> set (map fst (ms_pending s))
           then s\<lparr>ms_pending := join_pending k caller (ms_pending s)\<rparr>
           else s\<lparr>ms_pending := ms_pending s @ [(k, [caller])],
                  ms_invoked := ms_invoked s @ [k]\<rparr>))"

text \<open>
  Modelled from the spec: the fetcher of a key settling in \<open>memo.js\<close> (not among the
  sources). Every caller attached is given the outcome; only a value is stored.
\<close>

definition memo_settle ::
  "nat \<Rightarrow> nat \<Rightarrow> string \<Rightarrow> error + 'v \<Rightarrow> 'v memo_state \<Rightarrow> 'v memo_state" where
  "memo_settle ttl now k r s =
     (case map_of (ms_pending s) k of
        None \<Rightarrow> s
      | Some ws \<Rightarrow>
          s\<lparr>ms_pending := clear_pending k (ms_pending s),
            ms_observed := ms_observed s @ map (\<lambda>c. (c, k, r)) ws,
            ms_cache := (case r of
                           Inl _ \<Rightarrow> ms_cache s
                         | Inr v \<Rightarrow> cache_store ttl now k v (ms_cache s))\<rparr>)"

text \<open>
  Modelled from the spec: one event and a sequence of events on the cache of \<open>memo.js\<close>
  (not among the sources), and the cache of a process that has just started.
\<close>

fun memo_step :: "nat \<Rightarrow> 'v memo_event \<Rightarrow> 'v memo_state \<Rightarrow> 'v memo_state" where
  "memo_step ttl (Resolve now caller k) s = memo_resolve now caller k s"
| "memo_step ttl (Settle now k r) s = memo_settle ttl now k r s"

fun memo_run :: "nat \<Rightarrow> 'v memo_event list \<Rightarrow> 'v memo_state \<Rightarrow> 'v memo_state" where
  "memo_run ttl [] s = s"
| "memo_run ttl (ev # evs) s = memo_run ttl evs (memo_step ttl ev s)"

definition memo_init :: "'v memo_state" where
  "memo_init = \<lparr>ms_cache = Map.empty, ms_pending = [], ms_invoked = [], ms_observed = []\<rparr>"

section \<open>Reading a list of effects\<close>

text \<open>
  What a list of effects holds: how often the playback snapshot was asked of the provider,
  the cache keys used, the messages emitted, the items handed to
  \<open>addItemToPlaybackQueue\<close>, and how many ticks started.
\<close>

definition snapshot_calls :: "event list \<Rightarrow> nat" where
  "snapshot_calls tr =
     length (filter (\<lambda>e. case e of Provider (GetCurrentlyPlayingTrack _ _) \<Rightarrow> True | _ \<Rightarrow> False) tr)"

definition memo_keys :: "event list \<Rightarrow> string list" where
  "memo_keys tr = concat (map (\<lambda>e. case e of MemoUse k \<Rightarrow> [k] | _ \<Rightarrow> []) tr)"

definition emitted :: "event list \<Rightarrow> (string \<times> info) list" where
  "emitted tr = concat (map (\<lambda>e. case e of Emit ch i \<Rightarrow> [(ch, i)] | _ \<Rightarrow> []) tr)"

definition add_calls :: "event list \<Rightarrow> string list" where
  "add_calls tr =
     concat (map (\<lambda>e. case e of Provider (AddItemToPlaybackQueue u) \<Rightarrow> [u] | _ \<Rightarrow> []) tr)"

definition tick_starts :: "event list \<Rightarrow> nat" where
  "tick_starts tr = length (filter (\<lambda>e. e = Log ''Running centralised polling'') tr)"

definition provider_calls :: "event list \<Rightarrow> provider_call list" where
  "provider_calls tr = concat (map (\<lambda>e. case e of Provider pc \<Rightarrow> [pc] | _ \<Rightarrow> []) tr)"

text \<open>
  The URI of the context of the item the provider reports as playing, if there is one: the
  key \<open>info.get\<close> hands to \<open>context.get\<close>.
\<close>

definition context_key :: "sdk \<Rightarrow> string \<Rightarrow> string list" where
  "context_key s market =
     (case player_getCurrentlyPlayingTrack s market ''episode'' of
        Inr (Some track) \<Rightarrow> (case pb_context track of Some cx \<Rightarrow> [ctx_uri cx] | None \<Rightarrow> [])
      | _ \<Rightarrow> [])"

section \<open>Sample sessions\<close>

text \<open>Concrete provider sessions and data, for evaluating the definitions.\<close>

definition track_a :: track where
  "track_a =
     \<lparr>trk_id = ''t1'', trk_name = ''Song'', trk_artists = [\<lparr>ar_name = ''Band''\<rparr>],
      trk_uri = ''spotify:track:t1'',
      trk_album = \<lparr>alb_name = ''Record'', alb_images = []\<rparr>,
      trk_track_number = 1, trk_duration_ms = 180000\<rparr>"

definition album_a :: album where
  "album_a =
     \<lparr>al_id = ''abc'', al_name = ''Record'', al_release_date = ''1999-01-02'',
      al_uri = ''spotify:album:abc'', al_images = [], al_total_tracks = 9\<rparr>"

definition playlist_b :: playlist where
  "playlist_b =
     \<lparr>pl_id = ''xyz'', pl_name = ''Mix'', pl_owner_display_name = ''Someone'',
      pl_uri = ''spotify:playlist:xyz'', pl_images = [], pl_tracks_total = 30\<rparr>"

definition playback_a :: playback_state where
  "playback_a =
     \<lparr>pb_is_playing = True, pb_currently_playing_type = ''track'', pb_item = ItemTrack track_a,
      pb_context = Some \<lparr>ctx_uri = ''spotify:album:abc''\<rparr>, pb_progress_ms = 1000\<rparr>"

text \<open>A session every call of which is rejected.\<close>

definition sdk_offline :: sdk where
  "sdk_offline =
     \<lparr>player_getCurrentlyPlayingTrack = (\<lambda>_ _. Inl (UpstreamError ''offline'')),
      player_getUsersQueue = Inl (UpstreamError ''offline''),
      player_addItemToPlaybackQueue = (\<lambda>_. Inl (UpstreamError ''offline'')),
      playlists_getPlaylist = (\<lambda>_. Inl (UpstreamError ''offline'')),
      artists_get = (\<lambda>_. Inl (UpstreamError ''offline'')),
      albums_get = (\<lambda>_. Inl (UpstreamError ''offline'')),
      shows_get = (\<lambda>_. Inl (UpstreamError ''offline''))\<rparr>"

text \<open>A session playing \<open>track_a\<close> from an album, with that track alone in the queue.\<close>

definition sdk_a :: sdk where
  "sdk_a =
     sdk_offline
       \<lparr>player_getCurrentlyPlayingTrack := (\<lambda>_ _. Inr (Some playback_a)),
        player_getUsersQueue :=
          Inr (Some \<lparr>uq_currently_playing = None, uq_queue = [ItemTrack track_a]\<rparr>),
        player_addItemToPlaybackQueue := (\<lambda>_. Inr ()),
        albums_get := (\<lambda>_. Inr album_a)\<rparr>"

text \<open>The same track played from a playlist.\<close>

definition sdk_b :: sdk where
  "sdk_b =
     sdk_a
       \<lparr>player_getCurrentlyPlayingTrack :=
          (\<lambda>_ _. Inr (Some (playback_a\<lparr>pb_context := Some \<lparr>ctx_uri = ''spotify:playlist:xyz''\<rparr>\<rparr>))),
        playlists_getPlaylist := (\<lambda>_. Inr playlist_b)\<rparr>"

text \<open>As \<open>sdk_a\<close>, with no active device: adding to the queue is rejected.\<close>

definition sdk_no_device :: sdk where
  "sdk_no_device =
     sdk_a\<lparr>player_addItemToPlaybackQueue := (\<lambda>_. Inl (UpstreamError ''no active device''))\<rparr>"

text \<open>As \<open>sdk_a\<close>, with the album lookup rejected.\<close>

definition sdk_album_down :: sdk where
  "sdk_album_down = sdk_a\<lparr>albums_get := (\<lambda>_. Inl (UpstreamError ''offline''))\<rparr>"

text \<open>Two wake-ups: one that finds the provider unreachable, one that finds \<open>sdk_a\<close>.\<close>

definition wake_offline :: wake where
  "wake_offline = \<lparr>w_now = 0, w_sdk = Some sdk_offline, w_clients = 1\<rparr>"

definition wake_a :: wake where
  "wake_a = \<lparr>w_now = 5000, w_sdk = Some sdk_a, w_clients = 1\<rparr>"

text \<open>
  Reading a run of the cache: whether an event settles the fetch of a key; the callers that
  resolve a key in a list of events, in order, and the times of their calls; what the callers
  of a key have been given; whether a fetch is in flight for a key, and who is attached.
\<close>

fun settles :: "string \<Rightarrow> 'v memo_event \<Rightarrow> bool" where
  "settles k (Resolve t c k') = False"
| "settles k (Settle t k' r) = (k' = k)"

fun callers_of :: "string \<Rightarrow> 'v memo_event list \<Rightarrow> nat list" where
  "callers_of k [] = []"
| "callers_of k (Resolve t c k' # evs) = (if k' = k then c # callers_of k evs else callers_of k evs)"
| "callers_of k (Settle t k' r # evs) = callers_of k evs"

fun call_times :: "string \<Rightarrow> 'v memo_event list \<Rightarrow> nat list" where
  "call_times k [] = []"
| "call_times k (Resolve t c k' # evs) = (if k' = k then t # call_times k evs else call_times k evs)"
| "call_times k (Settle t k' r # evs) = call_times k evs"

definition observed_for :: "string \<Rightarrow> 'v memo_state \<Rightarrow> (nat \<times> (error + 'v)) list" where
  "observed_for k s = map (\<lambda>(c, k', r). (c, r)) (filter (\<lambda>(c, k', r). k' = k) (ms_observed s))"

definition in_flight :: "'v memo_state \<Rightarrow> string \<Rightarrow> bool" where
  "in_flight s k = (k \<in> set (map fst (ms_pending s)))"

definition waiters :: "'v memo_state \<Rightarrow> string \<Rightarrow> nat list" where
  "waiters s k = (case map_of (ms_pending s) k of None \<Rightarrow> [] | Some ws \<Rightarrow> ws)"

text \<open>
  Three callers of one key while its fetch is in flight, with a caller of another key in
  between.
\<close>

definition memo_sample :: "nat memo_event list" where
  "memo_sample =
     [Resolve 0 1 ''info:current'', Resolve 0 2 ''info:current'', Resolve 100 7 ''other'',
      Resolve 200 3 ''info:current'']"

text \<open>
  Requests under \<open>/api\<close>: a \<open>GET\<close> of the queue, a preflight, a request whose body does
  not parse, a \<open>GET\<close> of the health route, and one written in capitals.
\<close>

definition req_queue :: request where
  "req_queue =
     \<lparr>rq_method = ''GET'', rq_path = [''api'', ''queue''], rq_body_error = None, rq_sdk = None\<rparr>"

definition req_preflight :: request where
  "req_preflight = req_queue\<lparr>rq_method := ''OPTIONS''\<rparr>"

definition req_bad_body :: request where
  "req_bad_body =
     req_queue\<lparr>rq_method := ''POST'', rq_body_error := Some (BodyError ''entity.parse.failed'')\<rparr>"

definition req_health :: request where
  "req_health = req_queue\<lparr>rq_path := [''api'', ''health'']\<rparr>"

definition req_capitals :: request where
  "req_capitals = req_queue\<lparr>rq_path := [''API'', ''Queue'']\<rparr>"

text \<open>Plugins, \<open>/spotify\<close> routes and later handlers that answer nothing.\<close>

definition hands_on :: "request \<Rightarrow> unit option \<times> event list" where
  "hands_on req = (None, [])"

text \<open>Route handlers that would ask the provider for the queue.\<close>

definition asks_provider :: "route \<Rightarrow> request \<Rightarrow> (error + unit) \<times> event list" where
  "asks_provider r req = (Inr (), [Provider GetUsersQueue])"

lemmas sample_defs =
  track_a_def album_a_def playlist_b_def playback_a_def sdk_offline_def sdk_a_def sdk_b_def
  sdk_no_device_def sdk_album_down_def

section \<open>Effects of the building blocks\<close>

text \<open>How the readings of a list of effects go through \<open>@\<close> and \<open>#\<close>.\<close>

lemma proj_append [simp]:
  "snapshot_calls (xs @ ys) = snapshot_calls xs + snapshot_calls ys"
  "memo_keys (xs @ ys) = memo_keys xs @ memo_keys ys"
  "emitted (xs @ ys) = emitted xs @ emitted ys"
  "tick_starts (xs @ ys) = tick_starts xs + tick_starts ys"
  by (simp_all add: snapshot_calls_def memo_keys_def emitted_def tick_starts_def)

lemma proj_Nil [simp]:
  "snapshot_calls [] = 0" "memo_keys [] = []" "emitted [] = []" "tick_starts [] = 0"
  by (simp_all add: snapshot_calls_def memo_keys_def emitted_def tick_starts_def)

lemma proj_Cons [simp]:
  "snapshot_calls (Log m # tr) = snapshot_calls tr"
  "snapshot_calls (LogError e # tr) = snapshot_calls tr"
  "snapshot_calls (ErrorEvent m e # tr) = snapshot_calls tr"
  "snapshot_calls (MemoUse k # tr) = snapshot_calls tr"
  "snapshot_calls (Emit ch i # tr) = snapshot_calls tr"
  "snapshot_calls (Provider (GetCurrentlyPlayingTrack m a) # tr) = Suc (snapshot_calls tr)"
  "snapshot_calls (Provider GetUsersQueue # tr) = snapshot_calls tr"
  "snapshot_calls (Provider (AddItemToPlaybackQueue u) # tr) = snapshot_calls tr"
  "snapshot_calls (Provider (GetPlaylist j) # tr) = snapshot_calls tr"
  "snapshot_calls (Provider (ArtistsGet j) # tr) = snapshot_calls tr"
  "snapshot_calls (Provider (AlbumsGet j) # tr) = snapshot_calls tr"
  "snapshot_calls (Provider (ShowsGet j) # tr) = snapshot_calls tr"
  "memo_keys (Log m # tr) = memo_keys tr"
  "memo_keys (LogError e # tr) = memo_keys tr"
  "memo_keys (ErrorEvent m e # tr) = memo_keys tr"
  "memo_keys (MemoUse k # tr) = k # memo_keys tr"
  "memo_keys (Emit ch i # tr) = memo_keys tr"
  "memo_keys (Provider pc # tr) = memo_keys tr"
  "emitted (Log m # tr) = emitted tr"
  "emitted (LogError e # tr) = emitted tr"
  "emitted (ErrorEvent m e # tr) = emitted tr"
  "emitted (MemoUse k # tr) = emitted tr"
  "emitted (Emit ch i # tr) = (ch, i) # emitted tr"
  "emitted (Provider pc # tr) = emitted tr"
  "tick_starts (Log m # tr) = (if m = ''Running centralised polling'' then Suc (tick_starts tr) else tick_starts tr)"
  "tick_starts (LogError e # tr) = tick_starts tr"
  "tick_starts (ErrorEvent m e # tr) = tick_starts tr"
  "tick_starts (MemoUse k # tr) = tick_starts tr"
  "tick_starts (Emit ch i # tr) = tick_starts tr"
  "tick_starts (Provider pc # tr) = tick_starts tr"
  by (simp_all add: snapshot_calls_def memo_keys_def emitted_def tick_starts_def)

text \<open>
  What \<open>getContext\<close>, \<open>context.get\<close> and \<open>info.get\<close> can do: the context lookup never asks
  for the playback snapshot, emits nothing and never fails; \<open>info.get\<close> asks for the snapshot
  once, first thing.
\<close>

lemma getContext_try_trace:
  "getContext_try s uri = (r, tr) \<Longrightarrow>
     snapshot_calls tr = 0 \<and> memo_keys tr = [] \<and> emitted tr = [] \<and> tick_starts tr = 0"
  by (auto simp: getContext_try_def split: prod.splits sum.splits if_splits)

lemma getContext_trace:
  "getContext s uri = (r, tr) \<Longrightarrow>
     snapshot_calls tr = 0 \<and> memo_keys tr = [] \<and> emitted tr = [] \<and> tick_starts tr = 0"
  by (auto simp: getContext_def split: prod.splits sum.splits dest: getContext_try_trace)

lemma getContext_never_fails: "\<exists>cx. fst (getContext s uri) = Inr cx"
  by (simp add: getContext_def split: prod.splits sum.splits)

lemma context_get_trace:
  "context_get ttl now c s uri = (r, c', tr) \<Longrightarrow>
     snapshot_calls tr = 0 \<and> memo_keys tr = [uri] \<and> emitted tr = [] \<and> tick_starts tr = 0"
  by (auto simp: context_get_def memo_use_def split: option.splits prod.splits sum.splits
           dest: getContext_trace)

lemma info_get_trace:
  "info_get ttl now c s market = (r, c', tr) \<Longrightarrow>
     snapshot_calls tr = 1 \<and> emitted tr = [] \<and> tick_starts tr = 0"
  by (auto simp: info_get_def Let_def split: option.splits prod.splits sum.splits if_splits
           dest: context_get_trace)

lemma info_get_shape:
  "info_get ttl now c s market = (r, c', tr) \<Longrightarrow>
     \<exists>rest. tr = Provider (GetCurrentlyPlayingTrack market ''episode'') # rest
          \<and> snapshot_calls rest = 0 \<and> memo_keys rest = context_key s market"
  by (auto simp: info_get_def context_key_def Let_def
           split: option.splits prod.splits sum.splits if_splits
           dest: context_get_trace)

text \<open>Expiry is monotone in time, and a stored value is served until it expires.\<close>

lemma cache_lookup_later:
  "cache_lookup c now k = None \<Longrightarrow> now \<le> now' \<Longrightarrow> cache_lookup c now' k = None"
  by (auto simp: cache_lookup_def split: option.splits if_splits)

lemma cache_lookup_store:
  "now' < now + ttl \<Longrightarrow> cache_lookup (cache_store ttl now k v c) now' k = Some v"
  by (simp add: cache_lookup_def cache_store_def)

text \<open>Where a \<open>{success, authenticated}\<close> response can come from in the HTTP chain.\<close>

lemma external_not_health:
  "(\<And>q. fst (nxt q) \<noteq> Some (JsonHealth su au)) \<Longrightarrow>
     fst (external h req nxt) \<noteq> Some (JsonHealth su au)"
proof -
  assume n: "\<And>q. fst (nxt q) \<noteq> Some (JsonHealth su au)"
  obtain b tr where h: "h req = (b, tr)" by (cases "h req") auto
  obtain resp tr' where x: "nxt req = (resp, tr')" by (cases "nxt req") auto
  from n [of req] x have "resp \<noteq> Some (JsonHealth su au)" by simp
  then show ?thesis using h x by (cases b) (simp_all add: external_def)
qed

lemma ApiRoutes_health:
  assumes "fst (ApiRoutes general handlers r nxt) = Some (JsonHealth su au)"
    and n: "\<And>q. fst (nxt q) \<noteq> Some (JsonHealth su au)"
  shows "su \<and> au = (rq_sdk r \<noteq> None)"
proof (cases "match_route (rq_method r) (rq_path r)")
  case None
  with assms(1) n [of r] show ?thesis by (simp add: ApiRoutes_def)
next
  case (Some rt)
  obtain b tr where h: "handlers rt r = (b, tr)" by (cases "handlers rt r") auto
  show ?thesis
    using assms(1) Some h
    by (cases rt; cases b)
       (simp_all add: ApiRoutes_def health_def apiWrapper_def error_middleware_def)
qed

lemma api_mount_health:
  assumes "fst (api_mount unauth general handlers req nxt) = Some (JsonHealth su au)"
    and n: "\<And>q. fst (nxt q) \<noteq> Some (JsonHealth su au)"
  shows "su \<and> au \<and> rq_sdk req \<noteq> None"
proof (cases "rq_path req")
  case Nil
  with assms(1) n [of req] show ?thesis by (simp add: api_mount_def mount_def)
next
  case (Cons seg rest)
  show ?thesis
  proof (cases "to_lower seg = ''api''")
    case False
    with Cons assms(1) n [of req] show ?thesis by (simp add: api_mount_def mount_def)
  next
    case True
    let ?r = "req\<lparr>rq_path := rest\<rparr>"
    let ?k = "\<lambda>r. nxt (r\<lparr>rq_path := rq_path req\<rparr>)"
    show ?thesis
    proof (cases "rq_sdk req")
      case None
      with True Cons assms(1) show ?thesis
        by (simp add: api_mount_def mount_def sdkProtect_def)
    next
      case (Some y)
      with True Cons assms(1)
      have "fst (ApiRoutes general handlers ?r ?k) = Some (JsonHealth su au)"
        by (simp add: api_mount_def mount_def sdkProtect_def)
      from ApiRoutes_health [OF this] n have "su \<and> au = (rq_sdk ?r \<noteq> None)" by blast
      with Some show ?thesis by simp
    qed
  qed
qed

lemma own_chain_health:
  assumes "fst (own_chain unauth general spotify handlers later sdk_current req) =
             Some (JsonHealth su au)"
  shows "su \<and> au \<and> sdk_current \<noteq> None"
proof -
  let ?r1 = "req\<lparr>rq_sdk := sdk_current\<rparr>"
  let ?end = "\<lambda>r. external later r (\<lambda>_. (None, []))"
  let ?api = "\<lambda>r. api_mount unauth general handlers r ?end"
  have e: "fst (?end q) \<noteq> Some (JsonHealth su au)" for q
    by (rule external_not_health) simp
  have a: "fst (?api q) = Some (JsonHealth su au) \<Longrightarrow> su \<and> au \<and> rq_sdk q \<noteq> None" for q
    by (rule api_mount_health [OF _ e])
  from assms have m: "fst (mount ''spotify'' (external spotify) ?r1 ?api) = Some (JsonHealth su au)"
    by (simp add: own_chain_def attach_def)
  show ?thesis
  proof (cases "rq_path req")
    case Nil
    with m have "fst (?api ?r1) = Some (JsonHealth su au)" by (simp add: mount_def)
    from a [OF this] show ?thesis by simp
  next
    case (Cons seg rest)
    show ?thesis
    proof (cases "to_lower seg = ''spotify''")
      case False
      with Cons m have "fst (?api ?r1) = Some (JsonHealth su au)" by (simp add: mount_def)
      from a [OF this] show ?thesis by simp
    next
      case True
      let ?k = "\<lambda>r. ?api (r\<lparr>rq_path := rq_path ?r1\<rparr>)"
      from True Cons m
      have x: "fst (external spotify (?r1\<lparr>rq_path := rest\<rparr>) ?k) = Some (JsonHealth su au)"
        by (simp add: mount_def)
      have "fst (?k q) \<noteq> Some (JsonHealth su au)" for q
      proof
        assume "fst (?k q) = Some (JsonHealth su au)"
        moreover have "rq_path (q\<lparr>rq_path := rq_path ?r1\<rparr>) = seg # rest"
          using Cons by simp
        ultimately show False
          using e [of "q\<lparr>rq_path := rq_path ?r1\<rparr>"] True
          by (simp add: api_mount_def mount_def)
      qed
      from external_not_health [of ?k su au spotify "?r1\<lparr>rq_path := rest\<rparr>"] this x
      show ?thesis by blast
    qed
  qed
qed

lemma app_chain_reaches_own:
  assumes "fst (app_chain unauth general plugins spotify handlers later sdk_current req) =
             Some (JsonHealth su au)"
  shows "\<exists>q. fst (own_chain unauth general spotify handlers later sdk_current q) =
               Some (JsonHealth su au)"
proof (rule ccontr)
  assume "\<not> ?thesis"
  then have n: "\<And>q. fst (own_chain unauth general spotify handlers later sdk_current q) \<noteq>
                     Some (JsonHealth su au)"
    by blast
  have p: "fst (external plugins q
                 (own_chain unauth general spotify handlers later sdk_current)) \<noteq>
             Some (JsonHealth su au)" for q
    by (rule external_not_health) (rule n)
  show False
    using assms p [of req]
    by (cases "rq_body_error req")
       (simp_all add: app_chain_def express_json_def cors_def error_middleware_def
             split: if_splits)
qed

lemma app_chain_health:
  assumes "fst (app_chain unauth general plugins spotify handlers later sdk_current req) =
             Some (JsonHealth su au)"
  shows "su \<and> au \<and> sdk_current \<noteq> None"
  using app_chain_reaches_own [OF assms] own_chain_health by blast

text \<open>A request the earlier middleware hands on reaches the application's own chain.\<close>

lemma app_chain_handed_on:
  assumes "rq_body_error req = None" and "rq_method req \<noteq> ''OPTIONS''"
    and "fst (plugins req) = None"
  shows "app_chain unauth general plugins spotify handlers later sdk_current req =
           (fst (own_chain unauth general spotify handlers later sdk_current req),
            snd (plugins req)
              @ snd (own_chain unauth general spotify handlers later sdk_current req))"
proof -
  obtain tr where pl: "plugins req = (None, tr)"
    using assms(3) by (cases "plugins req") simp
  have "external plugins req nxt = (fst (nxt req), snd (plugins req) @ snd (nxt req))"
    for nxt :: "'a handler"
    using pl by (cases "nxt req") (simp add: external_def)
  with assms(1,2) show ?thesis
    by (simp add: app_chain_def express_json_def cors_def)
qed

lemma own_chain_protected:
  assumes "rq_path req = seg # rest" and "to_lower seg = ''api''"
  shows "own_chain unauth general spotify handlers later None req =
           (Some (JsonError unauth), [])"
proof -
  have "to_lower seg \<noteq> ''spotify''" using assms(2) by simp
  with assms show ?thesis
    by (simp add: own_chain_def attach_def mount_def api_mount_def sdkProtect_def)
qed

lemma own_chain_health_route:
  assumes "rq_method req = ''GET''" and "map to_lower (rq_path req) = [''api'', ''health'']"
    and "sdk_current \<noteq> None"
  shows "own_chain unauth general spotify handlers later sdk_current req =
           (Some (JsonHealth True True), [])"
proof -
  from assms(2) obtain a b where p: "rq_path req = [a, b]"
    and a: "to_lower a = ''api''" and b: "to_lower b = ''health''"
    by (cases "rq_path req") (auto simp: map_eq_Cons_conv)
  have "to_lower a \<noteq> ''spotify''" using a by simp
  with assms(1,3) p a b show ?thesis
    by (simp add: own_chain_def attach_def mount_def api_mount_def sdkProtect_def
          ApiRoutes_def match_route_def health_def)
qed

text \<open>Every tick writes its opening console line once; the loop splits at any point.\<close>

lemma poll_tick_tick_starts:
  "tick_starts (snd (snd (poll_tick ttl now c sdk_current n))) = 1"
proof (cases sdk_current)
  case None
  then show ?thesis by (simp add: poll_tick_def)
next
  case (Some s)
  obtain r c' tr where ig: "info_get ttl now c s DEFAULT_market = (r, c', tr)"
    by (cases "info_get ttl now c s DEFAULT_market") auto
  from info_get_trace [OF ig] have "tick_starts tr = 0" by simp
  with Some ig show ?thesis by (cases r) (simp_all add: poll_tick_def Let_def)
qed

lemma asyncInterval_append:
  "asyncInterval action st (ws1 @ ws2) =
     (fst (asyncInterval action st ws1)
        @ fst (asyncInterval action (snd (asyncInterval action st ws1)) ws2),
      snd (asyncInterval action (snd (asyncInterval action st ws1)) ws2))"
proof (induction ws1 arbitrary: st)
  case Nil
  show ?case by simp
next
  case (Cons w ws)
  obtain r st' tr where a: "action w st = (r, st', tr)" by (cases "action w st") auto
  show ?case using a Cons [of st'] by (cases r) (simp_all split: prod.splits)
qed

lemma polling_loop_tick_starts:
  "tick_starts (fst (polling_loop ttl c ws)) = length ws"
proof (induction ws arbitrary: c)
  case Nil
  show ?case by (simp add: polling_loop_def)
next
  case (Cons w ws)
  let ?t = "poll_tick ttl (w_now w) c (w_sdk w) (w_clients w)"
  obtain r c' tr where t: "?t = (r, c', tr)" by (cases ?t) auto
  from poll_tick_tick_starts [of ttl "w_now w" c "w_sdk w" "w_clients w"] t
  have one: "tick_starts tr = 1" by simp
  obtain tr' c'' where l: "polling_loop ttl c' ws = (tr', c'')"
    by (cases "polling_loop ttl c' ws") auto
  from Cons [of c'] l have ih: "tick_starts tr' = length ws" by simp
  show ?case
    using t one ih l by (cases r) (simp_all add: polling_loop_def)
qed

text \<open>
  The in-flight list under the cache's events: what a resolve that misses and an event about
  another key do to the callers attached to a key, to the fetcher starts and to what the
  callers of the key have been given.
\<close>

lemma map_fst_join [simp]: "map fst (join_pending k c xs) = map fst xs"
  unfolding join_pending_def by (induction xs) auto

lemma map_of_join:
  "map_of (join_pending k c xs) j =
     (if j = k then map_option (\<lambda>ws. ws @ [c]) (map_of xs k) else map_of xs j)"
  unfolding join_pending_def by (induction xs) auto

lemma map_fst_clear: "map fst (clear_pending k xs) = filter (\<lambda>k'. k' \<noteq> k) (map fst xs)"
  unfolding clear_pending_def by (induction xs) auto

lemma map_of_clear: "map_of (clear_pending k xs) j = (if j = k then None else map_of xs j)"
  unfolding clear_pending_def by (induction xs) auto

lemma mem_keys: "k \<in> fst ` set xs \<longleftrightarrow> map_of xs k \<noteq> None"
  by (simp add: map_of_eq_None_iff)

lemma in_flight_map_of: "in_flight s k \<longleftrightarrow> map_of (ms_pending s) k \<noteq> None"
  by (simp add: in_flight_def map_of_eq_None_iff)

lemma memo_step_distinct:
  "distinct (map fst (ms_pending s)) \<Longrightarrow> distinct (map fst (ms_pending (memo_step ttl ev s)))"
  by (cases ev)
     (auto simp: memo_resolve_def memo_settle_def map_fst_clear split: option.splits)

lemma memo_run_distinct:
  "distinct (map fst (ms_pending s)) \<Longrightarrow> distinct (map fst (ms_pending (memo_run ttl evs s)))"
  by (induction evs arbitrary: s) (simp_all add: memo_step_distinct)

text \<open>A resolve for the key that misses.\<close>

lemma resolve_miss:
  assumes miss: "cache_lookup (ms_cache s) t k = None"
  shows "waiters (memo_resolve t c k s) k = waiters s k @ [c]"
    and "in_flight (memo_resolve t c k s) k"
    and "count_list (ms_invoked (memo_resolve t c k s)) k =
           count_list (ms_invoked s) k + (if in_flight s k then 0 else 1)"
    and "observed_for k (memo_resolve t c k s) = observed_for k s"
    and "ms_cache (memo_resolve t c k s) = ms_cache s"
proof -
  show "waiters (memo_resolve t c k s) k = waiters s k @ [c]"
    using miss
    by (auto simp: memo_resolve_def waiters_def mem_keys map_of_join map_add_def
             split: option.splits)
  show "in_flight (memo_resolve t c k s) k"
    using miss
    by (auto simp: memo_resolve_def in_flight_map_of mem_keys map_of_join map_add_def)
  show "count_list (ms_invoked (memo_resolve t c k s)) k =
           count_list (ms_invoked s) k + (if in_flight s k then 0 else 1)"
    using miss by (simp add: memo_resolve_def in_flight_map_of mem_keys)
  show "observed_for k (memo_resolve t c k s) = observed_for k s"
    using miss by (simp add: memo_resolve_def observed_for_def)
  show "ms_cache (memo_resolve t c k s) = ms_cache s"
    using miss by (simp add: memo_resolve_def)
qed

text \<open>An event about another key.\<close>

lemma step_other:
  assumes "\<not> settles k ev" and "callers_of k [ev] = []"
  shows "waiters (memo_step ttl ev s) k = waiters s k"
    and "in_flight (memo_step ttl ev s) k = in_flight s k"
    and "count_list (ms_invoked (memo_step ttl ev s)) k = count_list (ms_invoked s) k"
    and "observed_for k (memo_step ttl ev s) = observed_for k s"
    and "ms_cache (memo_step ttl ev s) k = ms_cache s k"
proof -
  have m: "map_of (ms_pending (memo_step ttl ev s)) k = map_of (ms_pending s) k"
    using assms
    by (cases ev)
       (auto simp: memo_resolve_def memo_settle_def mem_keys map_of_join map_of_clear
             map_add_def split: option.splits if_splits)
  show "waiters (memo_step ttl ev s) k = waiters s k"
    using m by (simp add: waiters_def)
  show "in_flight (memo_step ttl ev s) k = in_flight s k"
    using m by (simp add: in_flight_map_of)
  show "count_list (ms_invoked (memo_step ttl ev s)) k = count_list (ms_invoked s) k"
    using assms
    by (cases ev) (auto simp: memo_resolve_def memo_settle_def split: option.splits if_splits)
  show "observed_for k (memo_step ttl ev s) = observed_for k s"
    using assms
    by (cases ev)
       (auto simp: memo_resolve_def memo_settle_def observed_for_def
             split: option.splits if_splits)
  show "ms_cache (memo_step ttl ev s) k = ms_cache s k"
    using assms
    by (cases ev)
       (auto simp: memo_resolve_def memo_settle_def cache_store_def
             split: option.splits if_splits sum.splits)
qed

lemma memo_run_append: "memo_run ttl (xs @ ys) s = memo_run ttl ys (memo_run ttl xs s)"
  by (induction xs arbitrary: s) simp_all

lemma run_calls:
  assumes "\<forall>ev\<in>set evs. \<not> settles k ev"
    and "\<forall>t\<in>set (call_times k evs). cache_lookup (ms_cache s) t k = None"
  shows "waiters (memo_run ttl evs s) k = waiters s k @ callers_of k evs
       \<and> in_flight (memo_run ttl evs s) k = (in_flight s k \<or> callers_of k evs \<noteq> [])
       \<and> count_list (ms_invoked (memo_run ttl evs s)) k =
           count_list (ms_invoked s) k
             + (if in_flight s k \<or> callers_of k evs = [] then 0 else 1)
       \<and> observed_for k (memo_run ttl evs s) = observed_for k s
       \<and> ms_cache (memo_run ttl evs s) k = ms_cache s k"
  using assms
proof (induction evs arbitrary: s)
  case Nil
  show ?case by simp
next
  case (Cons ev evs)
  let ?s = "memo_step ttl ev s"
  from Cons.prems(1) have ns: "\<not> settles k ev" and ns': "\<forall>ev\<in>set evs. \<not> settles k ev"
    by simp_all
  show ?case
  proof (cases "callers_of k [ev] = []")
    case True
    note other = step_other [OF ns True, of ttl s]
    from True have ct: "call_times k (ev # evs) = call_times k evs"
      and cs: "callers_of k (ev # evs) = callers_of k evs"
      by (cases ev; simp split: if_splits)+
    from Cons.prems(2) ct other(5)
    have "\<forall>t\<in>set (call_times k evs). cache_lookup (ms_cache ?s) t k = None"
      by (simp add: cache_lookup_def)
    from Cons.IH [OF ns' this] other cs show ?thesis by simp
  next
    case False
    then obtain t c where ev: "ev = Resolve t c k"
      by (cases ev) (auto split: if_splits)
    from Cons.prems(2) ev have miss: "cache_lookup (ms_cache s) t k = None"
      and rest: "\<forall>t\<in>set (call_times k evs). cache_lookup (ms_cache s) t k = None"
      by simp_all
    note hit = resolve_miss [OF miss, of c]
    from rest hit(5) ev
    have "\<forall>t\<in>set (call_times k evs). cache_lookup (ms_cache ?s) t k = None"
      by simp
    from Cons.IH [OF ns' this] hit ev show ?thesis by simp
  qed
qed

lemma settle_in_flight:
  assumes "in_flight s k"
  shows "observed_for k (memo_settle ttl t k r s) =
           observed_for k s @ map (\<lambda>c. (c, r)) (waiters s k)"
    and "\<not> in_flight (memo_settle ttl t k r s) k"
    and "ms_invoked (memo_settle ttl t k r s) = ms_invoked s"
proof -
  from assms obtain ws where ws: "map_of (ms_pending s) k = Some ws"
    by (auto simp: in_flight_map_of)
  show "observed_for k (memo_settle ttl t k r s) =
           observed_for k s @ map (\<lambda>c. (c, r)) (waiters s k)"
    using ws by (simp add: memo_settle_def observed_for_def waiters_def comp_def)
  show "\<not> in_flight (memo_settle ttl t k r s) k"
    using ws by (simp add: memo_settle_def in_flight_map_of map_of_clear)
  show "ms_invoked (memo_settle ttl t k r s) = ms_invoked s"
    using ws by (simp add: memo_settle_def)
qed

text \<open>A fetch that fails stores nothing; a resolve that finds nothing starts the fetcher.\<close>

lemma settle_failure_cache: "ms_cache (memo_settle ttl t k (Inl e) s) = ms_cache s"
  by (simp add: memo_settle_def split: option.splits)

lemma resolve_starts:
  "\<not> in_flight s k \<Longrightarrow> cache_lookup (ms_cache s) t k = None \<Longrightarrow>
     ms_invoked (memo_resolve t c k s) = ms_invoked s @ [k]"
  by (simp add: memo_resolve_def in_flight_def)

text \<open>
  The single resolve run to completion stores what a resolve followed at once by the
  settling of its fetcher stores.
\<close>

lemma memo_use_agrees:
  assumes "cache_lookup c now k = None"
  shows "ms_cache (memo_settle ttl now k (fst (fetcher ()))
                     (memo_resolve now caller k
                        \<lparr>ms_cache = c, ms_pending = [], ms_invoked = [], ms_observed = []\<rparr>)) =
           fst (snd (memo_use ttl now c k fetcher))"
  using assms
  by (cases "fetcher ()")
     (auto simp: memo_use_def memo_resolve_def memo_settle_def split: sum.splits)

section \<open>The claims\<close>

subsection \<open>The tick without a session\<close>

text \<open>
  Claim C5. A tick that finds the session slot empty (\<open>sdk.current\<close> is \<open>null\<close>) writes its
  console line and returns: it succeeds, it calls nothing on a provider, uses no cache key,
  emits nothing and leaves the cache as it was, whatever the number of connected clients.
\<close>

theorem poll_tick_no_session:
  "poll_tick ttl now c None n = (Inr (), c, [Log ''Running centralised polling''])"
  by (simp add: poll_tick_def)

subsection \<open>Adding to the queue\<close>

text \<open>
  The claim C9 as stated fails where the provider rejects the addition: with no item of that
  URI in the queue, \<open>addItemToPlaybackQueue\<close> is called and its rejection is the outcome of
  the operation, not \<open>{success: true}\<close>.
\<close>

theorem queue_add_add_rejected:
  "player_getUsersQueue sdk_no_device =
     Inr (Some \<lparr>uq_currently_playing = None, uq_queue = [ItemTrack track_a]\<rparr>)
   \<and> \<not> list_ex (\<lambda>item. item_uri item = ''spotify:track:t2'') [ItemTrack track_a]
   \<and> queue_add sdk_no_device ''spotify:track:t2'' =
       (Inl (UpstreamError ''no active device''),
        [Provider GetUsersQueue, Provider (AddItemToPlaybackQueue ''spotify:track:t2'')])"
  by (simp add: queue_add_def sample_defs item_uri_def)

text \<open>
  Claim C9, amended. When \<open>getUsersQueue\<close> resolves to a queue object: if some item of its
  \<open>queue\<close> has the URI, the operation returns \<open>{success: false}\<close> and its only provider call
  is \<open>getUsersQueue\<close>; otherwise it calls \<open>addItemToPlaybackQueue\<close> exactly once, with that
  URI, and returns \<open>{success: true}\<close> when that call resolves and fails with the call's error
  when it is rejected. When \<open>getUsersQueue\<close> is rejected or resolves to nothing, the
  operation fails without calling \<open>addItemToPlaybackQueue\<close>.
\<close>

theorem queue_add_checked:
  "(\<forall>q. player_getUsersQueue s = Inr (Some q) \<longrightarrow>
      (list_ex (\<lambda>item. item_uri item = uri) (uq_queue q) \<longrightarrow>
         queue_add s uri = (Inr \<lparr>success = False\<rparr>, [Provider GetUsersQueue]))
    \<and> (\<not> list_ex (\<lambda>item. item_uri item = uri) (uq_queue q) \<longrightarrow>
         add_calls (snd (queue_add s uri)) = [uri]
       \<and> (player_addItemToPlaybackQueue s uri = Inr () \<longrightarrow>
            fst (queue_add s uri) = Inr \<lparr>success = True\<rparr>)
       \<and> (\<forall>e. player_addItemToPlaybackQueue s uri = Inl e \<longrightarrow>
            fst (queue_add s uri) = Inl e)))
   \<and> (\<forall>e. player_getUsersQueue s = Inl e \<longrightarrow>
        queue_add s uri = (Inl e, [Provider GetUsersQueue]))
   \<and> (player_getUsersQueue s = Inr None \<longrightarrow>
        queue_add s uri = (Inl TypeError, [Provider GetUsersQueue]))"
  by (auto simp: queue_add_def add_calls_def split: sum.splits)

theorem queue_add_checked_witness:
  "queue_add sdk_a ''spotify:track:t1'' = (Inr \<lparr>success = False\<rparr>, [Provider GetUsersQueue])
   \<and> add_calls (snd (queue_add sdk_a ''spotify:track:t2'')) = [''spotify:track:t2'']
   \<and> fst (queue_add sdk_a ''spotify:track:t2'') = Inr \<lparr>success = True\<rparr>
   \<and> fst (queue_add sdk_no_device ''spotify:track:t2'') = Inl (UpstreamError ''no active device'')
   \<and> queue_add sdk_offline ''spotify:track:t2'' =
       (Inl (UpstreamError ''offline''), [Provider GetUsersQueue])"
proof -
  let ?q = "\<lparr>uq_currently_playing = None, uq_queue = [ItemTrack track_a]\<rparr>"
  have q: "player_getUsersQueue sdk_a = Inr (Some ?q)"
    and q': "player_getUsersQueue sdk_no_device = Inr (Some ?q)"
    and off: "player_getUsersQueue sdk_offline = Inl (UpstreamError ''offline'')"
    by (simp_all add: sample_defs)
  have hit: "list_ex (\<lambda>item. item_uri item = ''spotify:track:t1'') (uq_queue ?q)"
    by (simp add: item_uri_def track_a_def)
  have miss: "\<not> list_ex (\<lambda>item. item_uri item = ''spotify:track:t2'') (uq_queue ?q)"
    by (simp add: item_uri_def track_a_def)
  have ok: "player_addItemToPlaybackQueue sdk_a ''spotify:track:t2'' = Inr ()"
    and rej: "player_addItemToPlaybackQueue sdk_no_device ''spotify:track:t2'' =
                Inl (UpstreamError ''no active device'')"
    by (simp_all add: sample_defs)
  from queue_add_checked [of sdk_a "''spotify:track:t1''"] q hit
  have 1: "queue_add sdk_a ''spotify:track:t1'' =
             (Inr \<lparr>success = False\<rparr>, [Provider GetUsersQueue])"
    by blast
  from queue_add_checked [of sdk_a "''spotify:track:t2''"] q miss ok
  have 2: "add_calls (snd (queue_add sdk_a ''spotify:track:t2'')) = [''spotify:track:t2'']"
    and 3: "fst (queue_add sdk_a ''spotify:track:t2'') = Inr \<lparr>success = True\<rparr>"
    by blast+
  from queue_add_checked [of sdk_no_device "''spotify:track:t2''"] q' miss rej
  have 4: "fst (queue_add sdk_no_device ''spotify:track:t2'') =
             Inl (UpstreamError ''no active device'')"
    by blast
  from queue_add_checked [of sdk_offline "''spotify:track:t2''"] off
  have 5: "queue_add sdk_offline ''spotify:track:t2'' =
             (Inl (UpstreamError ''offline''), [Provider GetUsersQueue])"
    by blast
  from 1 2 3 4 5 show ?thesis by simp
qed

subsection \<open>Audience gating\<close>

text \<open>
  The claim C4 as stated fails where the fetch is rejected: with a session and a connected
  client the tick asks the provider, the rejection ends the tick, and nothing is emitted.
\<close>

theorem poll_tick_fetch_rejected:
  "poll_tick 2000 0 Map.empty (Some sdk_offline) 1 =
     (Inl (UpstreamError ''offline''), Map.empty,
      [Log ''Running centralised polling'',
       Provider (GetCurrentlyPlayingTrack ''GB'' ''episode'')])"
  by (simp add: poll_tick_def info_get_def sample_defs DEFAULT_market_def)

text \<open>
  Claim C4, amended. In a tick that finds a session: with no connected client the tick only
  writes its console line (no provider call, no cache use, nothing emitted); with at least one
  connected client it asks the provider for the playback snapshot exactly once, and when
  \<open>info.get\<close> resolves it emits that result once on \<open>info\<close> to the connected clients,
  while when the provider rejects the snapshot request the tick fails with the provider's
  error, having emitted nothing and left the cache as it was.
\<close>

theorem poll_tick_gated:
  "poll_tick ttl now c (Some s) 0 = (Inr (), c, [Log ''Running centralised polling''])
   \<and> (0 < n \<longrightarrow>
        snapshot_calls (snd (snd (poll_tick ttl now c (Some s) n))) = 1
      \<and> (\<forall>i. fst (info_get ttl now c s DEFAULT_market) = Inr i \<longrightarrow>
             fst (poll_tick ttl now c (Some s) n) = Inr ()
           \<and> emitted (snd (snd (poll_tick ttl now c (Some s) n))) = [(''info'', i)])
      \<and> (\<forall>e. player_getCurrentlyPlayingTrack s DEFAULT_market ''episode'' = Inl e \<longrightarrow>
             poll_tick ttl now c (Some s) n =
               (Inl e, c,
                [Log ''Running centralised polling'',
                 Provider (GetCurrentlyPlayingTrack DEFAULT_market ''episode'')])))"
proof -
  obtain r c' tr where ig: "info_get ttl now c s DEFAULT_market = (r, c', tr)"
    by (cases "info_get ttl now c s DEFAULT_market") auto
  from info_get_trace [OF ig]
  have tr: "snapshot_calls tr = 1" "emitted tr = []" by simp_all
  have 1: "poll_tick ttl now c (Some s) 0 = (Inr (), c, [Log ''Running centralised polling''])"
    by (simp add: poll_tick_def)
  have 2: "snapshot_calls (snd (snd (poll_tick ttl now c (Some s) n))) = 1
      \<and> (\<forall>i. fst (info_get ttl now c s DEFAULT_market) = Inr i \<longrightarrow>
             fst (poll_tick ttl now c (Some s) n) = Inr ()
           \<and> emitted (snd (snd (poll_tick ttl now c (Some s) n))) = [(''info'', i)])"
    if "0 < n"
    using that ig tr by (cases r) (simp_all add: poll_tick_def)
  have 3: "poll_tick ttl now c (Some s) n =
               (Inl e, c,
                [Log ''Running centralised polling'',
                 Provider (GetCurrentlyPlayingTrack DEFAULT_market ''episode'')])"
    if "0 < n" and "player_getCurrentlyPlayingTrack s DEFAULT_market ''episode'' = Inl e" for e
    using that by (simp add: poll_tick_def info_get_def)
  from 1 2 3 show ?thesis by blast
qed

theorem poll_tick_gated_witness:
  "snapshot_calls (snd (snd (poll_tick 2000 0 Map.empty (Some sdk_a) 3))) = 1
   \<and> fst (poll_tick 2000 0 Map.empty (Some sdk_a) 3) = Inr ()
   \<and> map fst (emitted (snd (snd (poll_tick 2000 0 Map.empty (Some sdk_a) 3)))) = [''info'']
   \<and> fst (poll_tick 2000 0 Map.empty (Some sdk_offline) 3) = Inl (UpstreamError ''offline'')
   \<and> emitted (snd (snd (poll_tick 2000 0 Map.empty (Some sdk_offline) 3))) = []"
proof -
  have a: "\<exists>i. fst (info_get 2000 0 Map.empty sdk_a DEFAULT_market) = Inr i"
    by (simp add: info_get_def context_get_def memo_use_def cache_lookup_def getContext_def
          getContext_try_def deconstructUri_def nth_opt_def trim_track_item_def trim_track_def
          sample_defs)
  have b: "player_getCurrentlyPlayingTrack sdk_offline DEFAULT_market ''episode'' =
             Inl (UpstreamError ''offline'')"
    by (simp add: sample_defs)
  from a poll_tick_gated [of 2000 0 Map.empty sdk_a 3]
       b poll_tick_gated [of 2000 0 Map.empty sdk_offline 3]
  show ?thesis by auto
qed

subsection \<open>Where the playback snapshot comes from\<close>

text \<open>
  The claim C2 as stated fails: the tick does not obtain the playback snapshot through the
  cache. With a session playing from an album, a tick on an empty cache asks the provider for
  the snapshot and uses the cache only for the album's context, under the context's URI; an
  info request made at the same instant on the cache the tick left asks the provider for the
  snapshot again; and a session playing from a playlist uses another key.
\<close>

theorem snapshot_asked_of_provider_each_time:
  "provider_calls (snd (snd (poll_tick 2000 0 Map.empty (Some sdk_a) 1))) =
     [GetCurrentlyPlayingTrack ''GB'' ''episode'', AlbumsGet (Some ''abc'')]
   \<and> memo_keys (snd (snd (poll_tick 2000 0 Map.empty (Some sdk_a) 1))) = [''spotify:album:abc'']
   \<and> provider_calls
        (snd (snd (info_get 2000 0 (fst (snd (poll_tick 2000 0 Map.empty (Some sdk_a) 1)))
                     sdk_a ''GB''))) =
       [GetCurrentlyPlayingTrack ''GB'' ''episode'']
   \<and> memo_keys (snd (snd (poll_tick 2000 0 Map.empty (Some sdk_b) 1))) =
       [''spotify:playlist:xyz'']"
  by (simp add: poll_tick_def info_get_def context_get_def memo_use_def cache_lookup_def
        cache_store_def getContext_def getContext_try_def deconstructUri_def nth_opt_def
        trim_track_item_def trim_track_def sample_defs DEFAULT_market_def provider_calls_def)

text \<open>
  Claim C2, amended. Every tick that performs a fetch asks the provider for the playback
  snapshot directly (\<open>getCurrentlyPlayingTrack\<close>, first thing and exactly once), whatever the
  cache holds, and so does a user-triggered \<open>info.get\<close>: each makes its own call. The cache is
  used only for the context of the playing item, under that context's URI (no key at all when
  nothing is playing or the item has no context). When \<open>info.get\<close> resolves, its result is
  emitted on \<open>info\<close> to the connected clients.
\<close>

theorem poll_tick_snapshot_direct:
  "0 < n \<Longrightarrow>
     (\<exists>rest. snd (snd (poll_tick ttl now c (Some s) n)) =
               Log ''Running centralised polling''
               # Provider (GetCurrentlyPlayingTrack DEFAULT_market ''episode'') # rest
            \<and> snapshot_calls rest = 0)
   \<and> memo_keys (snd (snd (poll_tick ttl now c (Some s) n))) = context_key s DEFAULT_market
   \<and> (\<exists>rest. snd (snd (info_get ttl now c s market)) =
               Provider (GetCurrentlyPlayingTrack market ''episode'') # rest
            \<and> snapshot_calls rest = 0)
   \<and> (\<forall>i. fst (info_get ttl now c s DEFAULT_market) = Inr i \<longrightarrow>
          emitted (snd (snd (poll_tick ttl now c (Some s) n))) = [(''info'', i)])"
proof -
  obtain r c' tr where ig: "info_get ttl now c s DEFAULT_market = (r, c', tr)"
    by (cases "info_get ttl now c s DEFAULT_market") auto
  obtain r2 c2 tr2 where ig2: "info_get ttl now c s market = (r2, c2, tr2)"
    by (cases "info_get ttl now c s market") auto
  from info_get_shape [OF ig] obtain rest where
    rest: "tr = Provider (GetCurrentlyPlayingTrack DEFAULT_market ''episode'') # rest"
      "snapshot_calls rest = 0" "memo_keys rest = context_key s DEFAULT_market"
    by blast
  from info_get_shape [OF ig2] obtain rest2 where
    rest2: "tr2 = Provider (GetCurrentlyPlayingTrack market ''episode'') # rest2"
      "snapshot_calls rest2 = 0"
    by blast
  from info_get_trace [OF ig] have em: "emitted tr = []" by simp
  assume n: "0 < n"
  have 1: "\<exists>rest. snd (snd (poll_tick ttl now c (Some s) n)) =
               Log ''Running centralised polling''
               # Provider (GetCurrentlyPlayingTrack DEFAULT_market ''episode'') # rest
            \<and> snapshot_calls rest = 0"
    using n ig rest by (cases r) (simp_all add: poll_tick_def)
  have 2: "memo_keys (snd (snd (poll_tick ttl now c (Some s) n))) = context_key s DEFAULT_market"
    using n ig rest by (cases r) (simp_all add: poll_tick_def)
  have 3: "\<exists>rest. snd (snd (info_get ttl now c s market)) =
               Provider (GetCurrentlyPlayingTrack market ''episode'') # rest
            \<and> snapshot_calls rest = 0"
    using ig2 rest2 by simp
  have 4: "\<forall>i. fst (info_get ttl now c s DEFAULT_market) = Inr i \<longrightarrow>
          emitted (snd (snd (poll_tick ttl now c (Some s) n))) = [(''info'', i)]"
    using n ig em by (cases r) (simp_all add: poll_tick_def)
  from 1 2 3 4 show ?thesis by blast
qed

theorem poll_tick_snapshot_direct_witness:
  "(\<exists>rest. snd (snd (poll_tick 2000 0 Map.empty (Some sdk_b) 1)) =
               Log ''Running centralised polling''
               # Provider (GetCurrentlyPlayingTrack DEFAULT_market ''episode'') # rest
            \<and> snapshot_calls rest = 0)
   \<and> memo_keys (snd (snd (poll_tick 2000 0 Map.empty (Some sdk_b) 1))) = [''spotify:playlist:xyz'']"
proof -
  have k: "context_key sdk_b DEFAULT_market = [''spotify:playlist:xyz'']"
    by (simp add: context_key_def sample_defs)
  have n: "0 < (1::nat)" by simp
  from poll_tick_snapshot_direct [OF n, of 2000 0 Map.empty sdk_b "''GB''"] k
  show ?thesis by simp
qed

subsection \<open>Failures and the cache\<close>

text \<open>
  The claim C3 as stated fails in its second half. With the album lookup rejected,
  \<open>context.get\<close> resolves to \<open>{}\<close> and the cache stores \<open>{}\<close> under the URI; a second call
  within the time-to-live, on a session whose album lookup works, is answered \<open>{}\<close> from the
  cache with no provider call, where an empty cache would have given the album.
\<close>

theorem context_failure_cached:
  "context_get 2000 0 Map.empty sdk_album_down ''spotify:album:abc'' =
     (Inr CtxEmpty, cache_store 2000 0 ''spotify:album:abc'' CtxEmpty Map.empty,
      [MemoUse ''spotify:album:abc'', Provider (AlbumsGet (Some ''abc''))])
   \<and> context_get 2000 1000 (cache_store 2000 0 ''spotify:album:abc'' CtxEmpty Map.empty)
        sdk_a ''spotify:album:abc'' =
     (Inr CtxEmpty, cache_store 2000 0 ''spotify:album:abc'' CtxEmpty Map.empty,
      [MemoUse ''spotify:album:abc''])
   \<and> fst (context_get 2000 1000 Map.empty sdk_a ''spotify:album:abc'') =
       Inr (CtxAlbum (trim_album album_a))"
  by (simp add: context_get_def memo_use_def cache_lookup_def cache_store_def getContext_def
        getContext_try_def deconstructUri_def nth_opt_def sample_defs)

text \<open>
  Claim C3, amended. For every key and every fetcher invocation that fails, the cache stores
  no value for that key: the failure is given to all the callers waiting on that fetch, the
  stored entries are unchanged, and a subsequent resolve for the same key invokes the fetcher
  again (for callers that interleave, and for a single resolve run to completion). The
  fetcher of \<open>context.get\<close>, \<open>getContext\<close>, however never fails: it catches a failed
  upstream lookup and resolves to \<open>{}\<close>, which the cache stores as a value; until that
  entry expires, every \<open>context.get\<close> for the URI is answered \<open>{}\<close> from the cache without
  a provider call.
\<close>

theorem failure_not_stored_but_context_never_fails:
  "((\<forall>ev\<in>set evs. \<not> settles k ev)
      \<and> (\<forall>t\<in>set (call_times k evs). cache_lookup (ms_cache st) t k = None)
      \<and> \<not> in_flight st k \<and> callers_of k evs \<noteq> [] \<longrightarrow>
      observed_for k (memo_run ttl (evs @ [Settle t k (Inl e)]) st) =
        observed_for k st @ map (\<lambda>c. (c, Inl e)) (callers_of k evs)
    \<and> ms_cache (memo_run ttl (evs @ [Settle t k (Inl e)]) st) = ms_cache (memo_run ttl evs st)
    \<and> ms_cache (memo_run ttl (evs @ [Settle t k (Inl e)]) st) k = ms_cache st k
    \<and> (\<forall>t' c'. cache_lookup (ms_cache st) t' k = None \<longrightarrow>
          ms_invoked (memo_resolve t' c' k (memo_run ttl (evs @ [Settle t k (Inl e)]) st)) =
            ms_invoked (memo_run ttl (evs @ [Settle t k (Inl e)]) st) @ [k]))
   \<and> (cache_lookup c now k = None \<and> fst (fetcher ()) = Inl e \<longrightarrow>
        fst (memo_use ttl now c k fetcher) = Inl e
      \<and> fst (snd (memo_use ttl now c k fetcher)) = c
      \<and> (\<forall>now' f'. now \<le> now' \<longrightarrow>
            snd (snd (memo_use ttl now' (fst (snd (memo_use ttl now c k fetcher))) k f')) =
              snd (f' ())))
   \<and> (\<exists>cx. fst (getContext s uri) = Inr cx)
   \<and> (cache_lookup ca now uri = None \<and> fst (getContext_try s uri) = Inl e' \<longrightarrow>
        fst (context_get ttl now ca s uri) = Inr CtxEmpty
      \<and> (\<forall>now' s'. now' < now + ttl \<longrightarrow>
            context_get ttl now' (fst (snd (context_get ttl now ca s uri))) s' uri =
              (Inr CtxEmpty, fst (snd (context_get ttl now ca s uri)), [MemoUse uri])))"
proof -
  have w: "observed_for k (memo_run ttl (evs @ [Settle t k (Inl e)]) st) =
        observed_for k st @ map (\<lambda>c. (c, Inl e)) (callers_of k evs)
    \<and> ms_cache (memo_run ttl (evs @ [Settle t k (Inl e)]) st) = ms_cache (memo_run ttl evs st)
    \<and> ms_cache (memo_run ttl (evs @ [Settle t k (Inl e)]) st) k = ms_cache st k
    \<and> (\<forall>t' c'. cache_lookup (ms_cache st) t' k = None \<longrightarrow>
          ms_invoked (memo_resolve t' c' k (memo_run ttl (evs @ [Settle t k (Inl e)]) st)) =
            ms_invoked (memo_run ttl (evs @ [Settle t k (Inl e)]) st) @ [k])"
    if ns: "\<forall>ev\<in>set evs. \<not> settles k ev"
      and miss: "\<forall>t\<in>set (call_times k evs). cache_lookup (ms_cache st) t k = None"
      and idle: "\<not> in_flight st k" and some: "callers_of k evs \<noteq> []"
  proof -
    let ?s = "memo_run ttl evs st"
    let ?f = "memo_settle ttl t k (Inl e) ?s"
    have fin: "memo_run ttl (evs @ [Settle t k (Inl e)]) st = ?f"
      by (simp add: memo_run_append)
    from run_calls [OF ns miss, of ttl] idle some
    have wt: "waiters ?s k = callers_of k evs"
      and fl: "in_flight ?s k"
      and ob: "observed_for k ?s = observed_for k st"
      and ck: "ms_cache ?s k = ms_cache st k"
      by (simp_all add: waiters_def in_flight_map_of)
    note st = settle_in_flight [OF fl, of ttl t "Inl e"]
    have cf: "ms_cache ?f = ms_cache ?s" by (rule settle_failure_cache)
    have 1: "observed_for k ?f = observed_for k st @ map (\<lambda>c. (c, Inl e)) (callers_of k evs)"
      using st(1) wt ob by simp
    have 3: "ms_cache ?f k = ms_cache st k" using cf ck by simp
    have 4: "ms_invoked (memo_resolve t' c' k ?f) = ms_invoked ?f @ [k]"
      if "cache_lookup (ms_cache st) t' k = None" for t' c'
    proof -
      from that 3 have "cache_lookup (ms_cache ?f) t' k = None"
        by (simp add: cache_lookup_def)
      from resolve_starts [OF st(2) this] show ?thesis .
    qed
    from 1 cf 3 4 show ?thesis unfolding fin by blast
  qed
  have a: "fst (memo_use ttl now c k fetcher) = Inl e
    \<and> fst (snd (memo_use ttl now c k fetcher)) = c
    \<and> (\<forall>now' f'. now \<le> now' \<longrightarrow>
          snd (snd (memo_use ttl now' (fst (snd (memo_use ttl now c k fetcher))) k f')) =
            snd (f' ()))"
    if miss: "cache_lookup c now k = None" and fail: "fst (fetcher ()) = Inl e"
  proof -
    obtain tr where f: "fetcher () = (Inl e, tr)"
      using fail by (cases "fetcher ()") auto
    have 1: "memo_use ttl now c k fetcher = (Inl e, c, tr)"
      using miss f by (simp add: memo_use_def)
    have 2: "snd (snd (memo_use ttl now' c k f')) = snd (f' ())"
      if "now \<le> now'" for now' f'
      using cache_lookup_later [OF miss that]
      by (cases "f' ()") (auto simp: memo_use_def split: sum.splits)
    from 1 2 show ?thesis by simp
  qed
  have c: "fst (context_get ttl now ca s uri) = Inr CtxEmpty
      \<and> (\<forall>now' s'. now' < now + ttl \<longrightarrow>
            context_get ttl now' (fst (snd (context_get ttl now ca s uri))) s' uri =
              (Inr CtxEmpty, fst (snd (context_get ttl now ca s uri)), [MemoUse uri]))"
    if miss: "cache_lookup ca now uri = None" and fail: "fst (getContext_try s uri) = Inl e'"
  proof -
    obtain tr where t: "getContext_try s uri = (Inl e', tr)"
      using fail by (cases "getContext_try s uri") auto
    have g: "getContext s uri = (Inr CtxEmpty, tr)"
      using t by (simp add: getContext_def)
    have 1: "context_get ttl now ca s uri =
               (Inr CtxEmpty, cache_store ttl now uri CtxEmpty ca, MemoUse uri # tr)"
      using miss g by (simp add: context_get_def memo_use_def)
    have 2: "context_get ttl now' (cache_store ttl now uri CtxEmpty ca) s' uri =
               (Inr CtxEmpty, cache_store ttl now uri CtxEmpty ca, [MemoUse uri])"
      if "now' < now + ttl" for now' s'
      using cache_lookup_store [OF that, of uri CtxEmpty ca]
      by (simp add: context_get_def memo_use_def)
    from 1 2 show ?thesis by simp
  qed
  from w a c getContext_never_fails [of s uri] show ?thesis by blast
qed

theorem failure_not_stored_but_context_never_fails_witness:
  "observed_for ''info:current''
     (memo_run 2000 (memo_sample @ [Settle 500 ''info:current'' (Inl (UpstreamError ''offline''))])
        memo_init) =
     [(1, Inl (UpstreamError ''offline'')), (2, Inl (UpstreamError ''offline'')),
      (3, Inl (UpstreamError ''offline''))]
   \<and> ms_cache
       (memo_run 2000 (memo_sample @ [Settle 500 ''info:current'' (Inl (UpstreamError ''offline''))])
          memo_init) ''info:current'' = None
   \<and> fst (memo_use 2000 0 (Map.empty :: api_context cache) ''k''
          (\<lambda>_. (Inl (UpstreamError ''offline''), []))) = Inl (UpstreamError ''offline'')
   \<and> snd (snd (memo_use 2000 5
         (fst (snd (memo_use 2000 0 (Map.empty :: api_context cache) ''k''
                      (\<lambda>_. (Inl (UpstreamError ''offline''), [])))))
         ''k'' (\<lambda>_. (Inr CtxEmpty, [Provider (AlbumsGet None)])))) =
       [Provider (AlbumsGet None)]
   \<and> fst (context_get 2000 0 Map.empty sdk_album_down ''spotify:album:abc'') = Inr CtxEmpty
   \<and> fst (context_get 2000 1999
            (fst (snd (context_get 2000 0 Map.empty sdk_album_down ''spotify:album:abc'')))
            sdk_a ''spotify:album:abc'') = Inr CtxEmpty"
proof -
  have m: "cache_lookup (Map.empty :: api_context cache) 0 ''k'' = None"
    and m': "cache_lookup (Map.empty :: api_context cache) 0 ''spotify:album:abc'' = None"
    by (simp_all add: cache_lookup_def)
  have f: "fst ((\<lambda>_::unit. (Inl (UpstreamError ''offline'') :: error + api_context,
                            [] :: event list)) ()) = Inl (UpstreamError ''offline'')"
    by simp
  have t: "fst (getContext_try sdk_album_down ''spotify:album:abc'') =
             Inl (UpstreamError ''offline'')"
    by (simp add: getContext_try_def deconstructUri_def nth_opt_def sample_defs)
  have h: "(\<forall>ev\<in>set memo_sample. \<not> settles ''info:current'' ev)
      \<and> (\<forall>t\<in>set (call_times ''info:current'' memo_sample).
            cache_lookup (ms_cache (memo_init :: nat memo_state)) t ''info:current'' = None)
      \<and> \<not> in_flight (memo_init :: nat memo_state) ''info:current''
      \<and> callers_of ''info:current'' memo_sample \<noteq> []"
    by (simp add: memo_sample_def memo_init_def cache_lookup_def in_flight_def)
  have cs: "callers_of ''info:current'' memo_sample = [1, 2, 3]"
    and ob: "observed_for ''info:current'' (memo_init :: nat memo_state) = []"
    and mc: "ms_cache (memo_init :: nat memo_state) ''info:current'' = None"
    by (simp_all add: memo_sample_def observed_for_def memo_init_def)
  from failure_not_stored_but_context_never_fails
         [where evs = memo_sample and k = "''info:current''"
            and st = "memo_init :: nat memo_state" and ttl = 2000 and t = 500
            and e = "UpstreamError ''offline''"
            and c = "Map.empty :: api_context cache" and now = 0
            and fetcher = "\<lambda>_. (Inl (UpstreamError ''offline''), [])"
            and s = sdk_album_down and uri = "''spotify:album:abc''" and ca = Map.empty
            and e' = "UpstreamError ''offline''"]
       h
  have w: "observed_for ''info:current''
       (memo_run 2000
          (memo_sample @ [Settle 500 ''info:current'' (Inl (UpstreamError ''offline''))])
          (memo_init :: nat memo_state)) =
       observed_for ''info:current'' (memo_init :: nat memo_state)
         @ map (\<lambda>c. (c, Inl (UpstreamError ''offline''))) (callers_of ''info:current'' memo_sample)"
    and w': "ms_cache
       (memo_run 2000
          (memo_sample @ [Settle 500 ''info:current'' (Inl (UpstreamError ''offline''))])
          (memo_init :: nat memo_state)) ''info:current'' =
       ms_cache (memo_init :: nat memo_state) ''info:current''"
    by blast+
  from w cs ob have 1: "observed_for ''info:current''
     (memo_run 2000 (memo_sample @ [Settle 500 ''info:current'' (Inl (UpstreamError ''offline''))])
        (memo_init :: nat memo_state)) =
     [(1, Inl (UpstreamError ''offline'')), (2, Inl (UpstreamError ''offline'')),
      (3, Inl (UpstreamError ''offline''))]"
    by simp
  from w' mc have 2: "ms_cache
       (memo_run 2000 (memo_sample @ [Settle 500 ''info:current'' (Inl (UpstreamError ''offline''))])
          (memo_init :: nat memo_state)) ''info:current'' = None"
    by simp
  from failure_not_stored_but_context_never_fails
         [where c = "Map.empty :: api_context cache" and now = 0 and k = "''k''"
            and fetcher = "\<lambda>_. (Inl (UpstreamError ''offline''), [])"
            and e = "UpstreamError ''offline''" and ttl = 2000
            and s = sdk_album_down and uri = "''spotify:album:abc''" and ca = Map.empty
            and e' = "UpstreamError ''offline''"
            and evs = memo_sample and st = "memo_init :: nat memo_state" and t = 500]
       m m' f t
  have "fst (memo_use 2000 0 (Map.empty :: api_context cache) ''k''
          (\<lambda>_. (Inl (UpstreamError ''offline''), []))) = Inl (UpstreamError ''offline'')"
    and "\<forall>now' f'. 0 \<le> now' \<longrightarrow>
          snd (snd (memo_use 2000 now'
            (fst (snd (memo_use 2000 0 (Map.empty :: api_context cache) ''k''
                      (\<lambda>_. (Inl (UpstreamError ''offline''), []))))) ''k'' f')) =
            snd (f' ())"
    and "fst (context_get 2000 0 Map.empty sdk_album_down ''spotify:album:abc'') = Inr CtxEmpty"
    and "\<forall>now' s'. now' < 0 + 2000 \<longrightarrow>
            context_get 2000 now'
              (fst (snd (context_get 2000 0 Map.empty sdk_album_down ''spotify:album:abc'')))
              s' ''spotify:album:abc'' =
              (Inr CtxEmpty,
               fst (snd (context_get 2000 0 Map.empty sdk_album_down ''spotify:album:abc'')),
               [MemoUse ''spotify:album:abc''])"
    by blast+
  with 1 2 show ?thesis by simp
qed

subsection \<open>The options of \<open>run\<close>\<close>

text \<open>
  The claim C7 as stated fails on the option names: \<open>run\<close> does not read an option called
  \<open>pollIntervalMs\<close>. Setting it to 1000 leaves the loop at 5000; the cadence is the option
  \<open>centralisedPollingTimer\<close>.
\<close>

theorem pollIntervalMs_not_read:
  "run_polling [''pollIntervalMs'' \<mapsto> JNum 1000] = Some (JNum 5000)
   \<and> run_polling [''centralisedPollingTimer'' \<mapsto> JNum 1000] = Some (JNum 1000)"
  by (simp add: run_polling_def merged_options_def DEFAULT_OPTS_def get_opt_def truthy_def
        map_add_def)

text \<open>
  Claim C7, amended. The options \<open>run\<close> reads for polling are \<open>centralisedPolling\<close> and
  \<open>centralisedPollingTimer\<close>. With \<open>centralisedPolling\<close> false no loop is started; with it
  true or left out (its default is true) the loop is started at the interval
  \<open>centralisedPollingTimer\<close>, which is 5000 when the caller's options do not have the
  property. No other property of the options (\<open>pollIntervalMs\<close>, \<open>cacheTtlMs\<close>) changes
  what \<open>run\<close> does about polling.
\<close>

theorem run_polling_options:
  "(opts ''centralisedPolling'' = Some (JBool False) \<longrightarrow> run_polling opts = None)
   \<and> (opts ''centralisedPolling'' = None \<or> opts ''centralisedPolling'' = Some (JBool True) \<longrightarrow>
        run_polling opts =
          Some (case opts ''centralisedPollingTimer'' of None \<Rightarrow> JNum 5000 | Some v \<Rightarrow> v))
   \<and> (k \<noteq> ''centralisedPolling'' \<and> k \<noteq> ''centralisedPollingTimer'' \<longrightarrow>
        run_polling (opts(k \<mapsto> v)) = run_polling opts)"
  by (auto simp: run_polling_def merged_options_def DEFAULT_OPTS_def get_opt_def truthy_def
        map_add_def split: option.splits)

theorem run_polling_options_witness:
  "run_polling [''centralisedPolling'' \<mapsto> JBool False] = None
   \<and> run_polling Map.empty = Some (JNum 5000)
   \<and> run_polling [''centralisedPolling'' \<mapsto> JBool True, ''centralisedPollingTimer'' \<mapsto> JNum 250] =
       Some (JNum 250)
   \<and> run_polling (Map.empty(''cacheTtlMs'' \<mapsto> JNum 1)) = run_polling Map.empty"
proof -
  from run_polling_options [of "[''centralisedPolling'' \<mapsto> JBool False]"]
  have 1: "run_polling [''centralisedPolling'' \<mapsto> JBool False] = None" by simp
  from run_polling_options [of Map.empty]
  have 2: "run_polling Map.empty = Some (JNum 5000)" by simp
  from run_polling_options
         [of "[''centralisedPolling'' \<mapsto> JBool True, ''centralisedPollingTimer'' \<mapsto> JNum 250]"]
  have 3: "run_polling [''centralisedPolling'' \<mapsto> JBool True,
                        ''centralisedPollingTimer'' \<mapsto> JNum 250] = Some (JNum 250)"
    by simp
  from run_polling_options [of Map.empty "''cacheTtlMs''" "JNum 1"]
  have 4: "run_polling (Map.empty(''cacheTtlMs'' \<mapsto> JNum 1)) = run_polling Map.empty"
    by simp
  from 1 2 3 4 show ?thesis by simp
qed

subsection \<open>The \<open>/api\<close> mount without a session\<close>

text \<open>
  The claim C8 as stated fails for the requests that the middleware installed before
  \<open>sdkProtect\<close> answers: with the session slot empty, a preflight (\<open>OPTIONS\<close>) under
  \<open>/api\<close> is answered by \<open>cors()\<close> with an empty 204, and a request whose body
  \<open>express.json()\<close> refuses is answered \<open>{error: true, message: GENERAL}\<close> by the
  error-handling middleware.
\<close>

theorem api_answered_before_sdkProtect:
  "rq_path req_preflight = [''api'', ''queue'']
   \<and> app_chain ''UNAUTHENTICATED'' ''GENERAL'' hands_on hands_on asks_provider hands_on None
       req_preflight = (Some NoContent, [])
   \<and> rq_path req_bad_body = [''api'', ''queue'']
   \<and> app_chain ''UNAUTHENTICATED'' ''GENERAL'' hands_on hands_on asks_provider hands_on None
       req_bad_body =
       (Some (JsonError ''GENERAL''),
        [ErrorEvent ''GENERAL'' (BodyError ''entity.parse.failed'')])"
  by (simp add: app_chain_def express_json_def cors_def error_middleware_def
        req_preflight_def req_bad_body_def req_queue_def)

text \<open>
  Claim C8, amended. While the session slot is empty, a request under the \<open>/api\<close> mount
  (the mount path matched without regard to case) that the middleware installed earlier
  hands on (its body raises no error in \<open>express.json()\<close>, it is not an \<open>OPTIONS\<close>
  request, no plugin answers it) is answered \<open>{error: true, message: UNAUTHENTICATED}\<close> by
  \<open>sdkProtect\<close>, with no effect beyond those of the plugins. And for every request under
  \<open>/api\<close>, whoever answers it, the outcome is the same whatever the route handlers, the
  \<open>/spotify\<close> routes and the handlers installed later are: none of them runs, so nothing is
  called on a provider by them.
\<close>

theorem api_unauthenticated:
  "rq_path req = seg # rest \<Longrightarrow> to_lower seg = ''api'' \<Longrightarrow>
     (rq_body_error req = None \<and> rq_method req \<noteq> ''OPTIONS'' \<and> fst (plugins req) = None \<longrightarrow>
        app_chain unauth general plugins spotify handlers later None req =
          (Some (JsonError unauth), snd (plugins req)))
   \<and> app_chain unauth general plugins spotify handlers later None req =
       app_chain unauth general plugins spotify' handlers' later' None req"
proof -
  assume p: "rq_path req = seg # rest" and l: "to_lower seg = ''api''"
  note prot = own_chain_protected [OF p l]
  have 1: "app_chain unauth general plugins spotify handlers later None req =
             (Some (JsonError unauth), snd (plugins req))"
    if "rq_body_error req = None" "rq_method req \<noteq> ''OPTIONS''" "fst (plugins req) = None"
    using that
    by (simp add: prot
          app_chain_handed_on [where req = req and plugins = plugins and sdk_current = None])
  obtain b tr where pl: "plugins req = (b, tr)" by (cases "plugins req") auto
  have 2: "app_chain unauth general plugins spotify handlers later None req =
             app_chain unauth general plugins spotify' handlers' later' None req"
    using pl
    by (cases "rq_body_error req"; cases b)
       (simp_all add: app_chain_def express_json_def cors_def external_def prot)
  from 1 2 show ?thesis by blast
qed

theorem api_unauthenticated_witness:
  "app_chain ''UNAUTHENTICATED'' ''GENERAL'' hands_on hands_on asks_provider hands_on None
     req_queue = (Some (JsonError ''UNAUTHENTICATED''), [])
   \<and> app_chain ''UNAUTHENTICATED'' ''GENERAL'' hands_on hands_on asks_provider hands_on None
     req_capitals = (Some (JsonError ''UNAUTHENTICATED''), [])"
proof -
  have q: "rq_path req_queue = ''api'' # [''queue'']"
    and c: "rq_path req_capitals = ''API'' # [''Queue'']"
    by (simp_all add: req_queue_def req_capitals_def)
  have l: "to_lower ''api'' = ''api''" and u: "to_lower ''API'' = ''api''"
    by (simp_all add: to_lower_def lower_char_def)
  have h: "rq_body_error req_queue = None \<and> rq_method req_queue \<noteq> ''OPTIONS''
             \<and> fst (hands_on req_queue) = None"
    and h': "rq_body_error req_capitals = None \<and> rq_method req_capitals \<noteq> ''OPTIONS''
             \<and> fst (hands_on req_capitals) = None"
    by (simp_all add: req_queue_def req_capitals_def hands_on_def)
  from api_unauthenticated [OF q l, of hands_on "''UNAUTHENTICATED''" "''GENERAL''" hands_on
         asks_provider hands_on hands_on asks_provider hands_on] h
       api_unauthenticated [OF c u, of hands_on "''UNAUTHENTICATED''" "''GENERAL''" hands_on
         asks_provider hands_on hands_on asks_provider hands_on] h'
  show ?thesis by (simp add: hands_on_def)
qed

subsection \<open>The \<open>/health\<close> route\<close>

text \<open>
  Claim C10. Whatever the request, the plugins and the other handlers, a
  \<open>{success, authenticated}\<close> response leaves the application only with \<open>success\<close> and
  \<open>authenticated\<close> both true and a session in the slot, so with the slot empty no request
  gets one. A \<open>GET\<close> of \<open>/api/health\<close> that the earlier middleware hands on gets it when
  there is a session, and gets the \<open>sdkProtect\<close> error when there is none.
\<close>

theorem health_authenticated:
  "(fst (app_chain unauth general plugins spotify handlers later sdk_current req) =
      Some (JsonHealth su au) \<longrightarrow> su \<and> au \<and> sdk_current \<noteq> None)
   \<and> (sdk_current = None \<longrightarrow>
        fst (app_chain unauth general plugins spotify handlers later sdk_current req) \<noteq>
          Some (JsonHealth su au))
   \<and> (rq_method req = ''GET'' \<and> map to_lower (rq_path req) = [''api'', ''health'']
        \<and> rq_body_error req = None \<and> fst (plugins req) = None \<longrightarrow>
        app_chain unauth general plugins spotify handlers later sdk_current req =
          (Some (if sdk_current = None then JsonError unauth else JsonHealth True True),
           snd (plugins req)))"
proof -
  have 1: "fst (app_chain unauth general plugins spotify handlers later sdk_current req) =
      Some (JsonHealth su au) \<longrightarrow> su \<and> au \<and> sdk_current \<noteq> None"
    using app_chain_health by blast
  have 3: "app_chain unauth general plugins spotify handlers later sdk_current req =
          (Some (if sdk_current = None then JsonError unauth else JsonHealth True True),
           snd (plugins req))"
    if g: "rq_method req = ''GET''" and p: "map to_lower (rq_path req) = [''api'', ''health'']"
      and b: "rq_body_error req = None" and f: "fst (plugins req) = None"
  proof -
    from g have m: "rq_method req \<noteq> ''OPTIONS''" by simp
    from b m f have on:
      "app_chain unauth general plugins spotify handlers later sdk_current req =
         (fst (own_chain unauth general spotify handlers later sdk_current req),
          snd (plugins req)
            @ snd (own_chain unauth general spotify handlers later sdk_current req))"
      by (rule app_chain_handed_on [where req = req and plugins = plugins])
    show ?thesis
    proof (cases "sdk_current = None")
      case True
      from p obtain a rest where "rq_path req = a # rest" "to_lower a = ''api''"
        by (cases "rq_path req") auto
      note prot = own_chain_protected [OF this]
      from on True show ?thesis by (simp add: prot)
    next
      case False
      note route = own_chain_health_route [OF g p False]
      from on False show ?thesis by (simp add: route)
    qed
  qed
  have 2: "sdk_current = None \<longrightarrow>
        fst (app_chain unauth general plugins spotify handlers later sdk_current req) \<noteq>
          Some (JsonHealth su au)"
    using 1 by blast
  have 4: "rq_method req = ''GET'' \<and> map to_lower (rq_path req) = [''api'', ''health'']
        \<and> rq_body_error req = None \<and> fst (plugins req) = None \<longrightarrow>
        app_chain unauth general plugins spotify handlers later sdk_current req =
          (Some (if sdk_current = None then JsonError unauth else JsonHealth True True),
           snd (plugins req))"
    by (intro impI, elim conjE, rule 3)
  from 1 2 4 show ?thesis by (intro conjI)
qed

theorem health_authenticated_witness:
  "app_chain ''UNAUTHENTICATED'' ''GENERAL'' hands_on hands_on asks_provider hands_on
     (Some sdk_offline) req_health = (Some (JsonHealth True True), [])
   \<and> app_chain ''UNAUTHENTICATED'' ''GENERAL'' hands_on hands_on asks_provider hands_on
     None req_health = (Some (JsonError ''UNAUTHENTICATED''), [])"
proof -
  have h: "rq_method req_health = ''GET'' \<and> map to_lower (rq_path req_health) = [''api'', ''health'']
             \<and> rq_body_error req_health = None \<and> fst (hands_on req_health) = None"
    by (simp add: req_health_def req_queue_def hands_on_def to_lower_def lower_char_def)
  from health_authenticated
         [of "''UNAUTHENTICATED''" "''GENERAL''" hands_on hands_on asks_provider hands_on
             "Some sdk_offline" req_health]
       health_authenticated
         [of "''UNAUTHENTICATED''" "''GENERAL''" hands_on hands_on asks_provider hands_on
             None req_health]
       h
  show ?thesis by (simp add: hands_on_def)
qed

subsection \<open>A failed tick and the loop\<close>

text \<open>
  Claim C6. Over any stretch of wake-ups, every wake-up starts a tick, whatever the ticks
  before it did. When a tick fails, its error is logged and the loop goes on: what follows
  is exactly the loop run on the remaining wake-ups from the state the failed tick left.
  The same holds after any prefix of wake-ups, failed or not.
\<close>

theorem polling_loop_survives_failure:
  "tick_starts (fst (polling_loop ttl c ws)) = length ws
   \<and> (fst (poll_tick ttl (w_now w) c (w_sdk w) (w_clients w)) = Inl e \<longrightarrow>
        polling_loop ttl c (w # ws) =
          (snd (snd (poll_tick ttl (w_now w) c (w_sdk w) (w_clients w))) @ [LogError e]
             @ fst (polling_loop ttl
                      (fst (snd (poll_tick ttl (w_now w) c (w_sdk w) (w_clients w)))) ws),
           snd (polling_loop ttl
                  (fst (snd (poll_tick ttl (w_now w) c (w_sdk w) (w_clients w)))) ws)))
   \<and> polling_loop ttl c (ws1 @ ws2) =
       (fst (polling_loop ttl c ws1)
          @ fst (polling_loop ttl (snd (polling_loop ttl c ws1)) ws2),
        snd (polling_loop ttl (snd (polling_loop ttl c ws1)) ws2))"
proof -
  let ?t = "poll_tick ttl (w_now w) c (w_sdk w) (w_clients w)"
  have 2: "polling_loop ttl c (w # ws) =
          (snd (snd ?t) @ [LogError e] @ fst (polling_loop ttl (fst (snd ?t)) ws),
           snd (polling_loop ttl (fst (snd ?t)) ws))"
    if "fst ?t = Inl e"
  proof -
    obtain r c' tr where t: "?t = (r, c', tr)" by (cases ?t) auto
    with that have r: "r = Inl e" by simp
    obtain tr' c'' where l: "polling_loop ttl c' ws = (tr', c'')"
      by (cases "polling_loop ttl c' ws") auto
    from t r l show ?thesis by (simp add: polling_loop_def)
  qed
  have 3: "polling_loop ttl c (ws1 @ ws2) =
       (fst (polling_loop ttl c ws1)
          @ fst (polling_loop ttl (snd (polling_loop ttl c ws1)) ws2),
        snd (polling_loop ttl (snd (polling_loop ttl c ws1)) ws2))"
    unfolding polling_loop_def by (rule asyncInterval_append)
  from polling_loop_tick_starts [of ttl c ws] 2 3 show ?thesis by blast
qed

theorem polling_loop_survives_failure_witness:
  "fst (poll_tick 2000 (w_now wake_offline) Map.empty (w_sdk wake_offline) (w_clients wake_offline))
     = Inl (UpstreamError ''offline'')
   \<and> tick_starts (fst (polling_loop 2000 Map.empty [wake_offline, wake_a])) = 2
   \<and> fst (polling_loop 2000 Map.empty [wake_offline, wake_a]) =
       [Log ''Running centralised polling'',
        Provider (GetCurrentlyPlayingTrack ''GB'' ''episode''),
        LogError (UpstreamError ''offline'')]
       @ fst (polling_loop 2000 Map.empty [wake_a])"
proof -
  have f: "poll_tick 2000 (w_now wake_offline) Map.empty (w_sdk wake_offline)
             (w_clients wake_offline) =
           (Inl (UpstreamError ''offline''), Map.empty,
            [Log ''Running centralised polling'',
             Provider (GetCurrentlyPlayingTrack ''GB'' ''episode'')])"
    by (simp add: poll_tick_def info_get_def sample_defs wake_offline_def DEFAULT_market_def)
  from polling_loop_survives_failure
         [of 2000 Map.empty "[wake_offline, wake_a]" wake_offline "UpstreamError ''offline''"
             "[]" "[]"]
       polling_loop_survives_failure
         [of 2000 Map.empty "[wake_a]" wake_offline "UpstreamError ''offline''"
             "[]" "[]"]
       f
  show ?thesis by simp
qed

subsection \<open>Concurrent callers of one key\<close>

text \<open>
  Claim C1. From a state in which no fetch is in flight for the key \<open>k\<close>, let any number of
  events happen in which at least one caller resolves \<open>k\<close>, every such call finds no
  non-expired value for \<open>k\<close>, and the fetch of \<open>k\<close> does not settle (events about other keys
  may come in between); then let the fetch of \<open>k\<close> settle with an outcome \<open>r\<close>, a value or a
  failure. The fetcher was started exactly once for \<open>k\<close>; what the callers of \<open>k\<close> were
  given in all this is \<open>r\<close>, once for each of them, in the order they called; nothing is in
  flight for \<open>k\<close> afterwards; and at every instant on the way the resolutions in flight
  have distinct keys, so never two for one key.
\<close>

theorem memo_single_flight:
  assumes "\<forall>ev\<in>set evs. \<not> settles k ev"
    and "\<forall>t\<in>set (call_times k evs). cache_lookup (ms_cache s) t k = None"
    and "\<not> in_flight s k"
    and "callers_of k evs \<noteq> []"
    and "distinct (map fst (ms_pending s))"
  shows "count_list (ms_invoked (memo_run ttl (evs @ [Settle t k r]) s)) k =
           Suc (count_list (ms_invoked s) k)
       \<and> observed_for k (memo_run ttl (evs @ [Settle t k r]) s) =
           observed_for k s @ map (\<lambda>c. (c, r)) (callers_of k evs)
       \<and> \<not> in_flight (memo_run ttl (evs @ [Settle t k r]) s) k
       \<and> distinct (map fst (ms_pending (memo_run ttl (take n (evs @ [Settle t k r])) s)))"
proof -
  let ?s = "memo_run ttl evs s"
  from run_calls [OF assms(1,2), of ttl] assms(3,4)
  have w: "waiters ?s k = callers_of k evs"
    and f: "in_flight ?s k"
    and i: "count_list (ms_invoked ?s) k = Suc (count_list (ms_invoked s) k)"
    and ob: "observed_for k ?s = observed_for k s"
    by (simp_all add: waiters_def in_flight_map_of)
  note st = settle_in_flight [OF f, of ttl t r]
  have d: "distinct (map fst (ms_pending (memo_run ttl (take n (evs @ [Settle t k r])) s)))"
    by (rule memo_run_distinct [OF assms(5)])
  from st w i ob have "count_list (ms_invoked (memo_run ttl (evs @ [Settle t k r]) s)) k =
           Suc (count_list (ms_invoked s) k)
       \<and> observed_for k (memo_run ttl (evs @ [Settle t k r]) s) =
           observed_for k s @ map (\<lambda>c. (c, r)) (callers_of k evs)
       \<and> \<not> in_flight (memo_run ttl (evs @ [Settle t k r]) s) k"
    by (simp add: memo_run_append)
  with d show ?thesis by blast
qed

theorem memo_single_flight_witness:
  "count_list (ms_invoked
       (memo_run 2000 (memo_sample @ [Settle 500 ''info:current'' (Inr 42)]) memo_init))
     ''info:current'' = 1
   \<and> observed_for ''info:current''
       (memo_run 2000 (memo_sample @ [Settle 500 ''info:current'' (Inr 42)]) memo_init) =
     [(1, Inr 42), (2, Inr 42), (3, Inr 42)]
   \<and> distinct (map fst (ms_pending (memo_run 2000
        (take 3 (memo_sample @ [Settle 500 ''info:current'' (Inr 42)])) memo_init)))"
proof -
  have 1: "\<forall>ev\<in>set memo_sample. \<not> settles ''info:current'' ev"
    by (simp add: memo_sample_def)
  have 2: "\<forall>t\<in>set (call_times ''info:current'' memo_sample).
             cache_lookup (ms_cache (memo_init :: nat memo_state)) t ''info:current'' = None"
    by (simp add: memo_sample_def memo_init_def cache_lookup_def)
  have 3: "\<not> in_flight (memo_init :: nat memo_state) ''info:current''"
    by (simp add: in_flight_def memo_init_def)
  have 4: "callers_of ''info:current'' memo_sample \<noteq> []"
    by (simp add: memo_sample_def)
  have 5: "distinct (map fst (ms_pending (memo_init :: nat memo_state)))"
    by (simp add: memo_init_def)
  have c: "callers_of ''info:current'' memo_sample = [1, 2, 3]"
    by (simp add: memo_sample_def)
  have o: "observed_for ''info:current'' (memo_init :: nat memo_state) = []"
    and n: "ms_invoked (memo_init :: nat memo_state) = []"
    by (simp_all add: observed_for_def memo_init_def)
  from memo_single_flight [OF 1 2 3 4 5, of 2000 500 "Inr 42" 3] c o n
  show ?thesis by simp
qed

end
